theory Spec2Isabelle
  imports Main
begin

section \<open>Errors, results and the ghost trace\<close>

text \<open>
  The repository has two layers.  The wrapper module (\<^verbatim>\<open>src/octokit-wrapper.js\<close>, and a
  later revision of the same module kept as \<^verbatim>\<open>src/unnamed/part_000\<close>) holds the retry engine
  \<^verbatim>\<open>runWithRetries\<close> and the request builder \<^verbatim>\<open>createRequest\<close>.  The executor classes
  (\<^verbatim>\<open>src/executors/classes/task.js\<close>, \<^verbatim>\<open>taskChain.js\<close>) hold \<^verbatim>\<open>Task\<close> and
  \<^verbatim>\<open>TaskChain\<close>.

  Thrown values are modelled as error objects: \<open>Error msg\<close> is \<^verbatim>\<open>new Error(msg)\<close>,
  \<open>TypeError\<close> is a TypeError raised by the language itself (a method call on \<^verbatim>\<open>null\<close>, on a
  value without that method, or destructuring \<^verbatim>\<open>undefined\<close>; the engine-specific message is
  not modelled), and \<open>RequestError status msg\<close> is an error object that carries a numeric
  \<^verbatim>\<open>status\<close> field, as the errors of the remote client do.
\<close>

datatype error = Error string | TypeError | RequestError int string

fun status :: "error \<Rightarrow> int option" where
  "status (RequestError s m) = Some s"
| "status e = None"

text \<open>\<^verbatim>\<open>{ success: true, data }\<close> and \<^verbatim>\<open>{ success: false, error }\<close>.\<close>

datatype 'a result = Success 'a | Failure error

text \<open>
  A function either returns or throws.  The effects that the claims count are kept in a
  ghost trace: \<open>Invoke\<close> for one invocation of the retried operation, \<open>Sleep d\<close> for one
  \<^verbatim>\<open>setTimeout(res, d)\<close> that the loop awaits.  Console output is not modelled.
\<close>

datatype 'r completion = Return 'r | Throw error

text \<open>
  A delay is a double.  The configured numbers are modelled as integers (the integers that
  are doubles; \<^verbatim>\<open>NaN\<close>, infinities and fractions as configuration values are outside
  the model), but the backoff delay \<^verbatim>\<open>interval * 2 ** (attempt - 1)\<close> is computed as the
  code computes it: \<^verbatim>\<open>2 ** k\<close> is exact for \<open>k < 1024\<close> and \<^verbatim>\<open>Infinity\<close> from there on,
  and the product of an integer double with a power of two is exact when its magnitude is
  below \<open>2 ^ 1024\<close> and overflows to an infinity otherwise.
\<close>

datatype jsnumber = Finite int | PosInfinity | NegInfinity | NaN

definition power_of_two :: "nat \<Rightarrow> jsnumber" where
  "power_of_two k = (if k < 1024 then Finite (2 ^ k) else PosInfinity)"

fun times :: "int \<Rightarrow> jsnumber \<Rightarrow> jsnumber" where
  "times x (Finite y) =
     (if \<bar>x * y\<bar> < 2 ^ 1024 then Finite (x * y)
      else if 0 < x * y then PosInfinity else NegInfinity)"
| "times x PosInfinity = (if 0 < x then PosInfinity else if x < 0 then NegInfinity else NaN)"
| "times x NegInfinity = (if 0 < x then NegInfinity else if x < 0 then PosInfinity else NaN)"
| "times x NaN = NaN"

text \<open>\<^verbatim>\<open>interval * 2 ** (attempt - 1)\<close>; \<^verbatim>\<open>attempt\<close> is at least 1 where it is computed.\<close>

definition backoffDelay :: "int \<Rightarrow> nat \<Rightarrow> jsnumber" where
  "backoffDelay interval attempt = times interval (power_of_two (attempt - 1))"

datatype event = Invoke | Sleep jsnumber

definition invocations :: "event list \<Rightarrow> nat" where
  "invocations tr = count_list tr Invoke"

text \<open>\<open>toString\<close> is the decimal rendering that a template literal gives an integer.\<close>

fun digits :: "nat \<Rightarrow> string" where
  "digits n =
     (if n < 10 then [char_of (48 + n)]
      else digits (n div 10) @ [char_of (48 + n mod 10)])"

definition toString :: "int \<Rightarrow> string" where
  "toString n = (if n < 0 then CHR ''-'' # digits (nat (- n)) else digits (nat n))"

text \<open>\<^verbatim>\<open>new Error(`Request failed after ${maxRetries} attempts`)\<close>\<close>

definition exhausted :: "int \<Rightarrow> error" where
  "exhausted n = Error (''Request failed after '' @ toString n @ '' attempts'')"

section \<open>The retry engine\<close>

text \<open>
  \<^verbatim>\<open>runWithRetries(callback, retryConfig)\<close>.  The callback is an effectful nullary operation;
  \<open>callback i\<close> is the outcome of its invocation number \<open>i\<close> (counted from 0): \<open>Inr data\<close>
  when the promise resolves, \<open>Inl e\<close> when it rejects with \<open>e\<close>.  The loop counter
  \<^verbatim>\<open>attempt\<close> starts at 1; \<open>calls\<close> counts the invocations made so far.  The result is
  \<open>None\<close> when the \<^verbatim>\<open>while\<close> loop is left without a \<^verbatim>\<open>return\<close> (the promise resolves to
  \<^verbatim>\<open>undefined\<close>).
\<close>

record retryConfig =
  maxRetries :: int
  interval :: int
  stopRetries :: "error \<Rightarrow> bool \<times> error"

text \<open>The engine of \<^verbatim>\<open>src/unnamed/part_000\<close> (lines 251-281), with the stop predicate.\<close>

function runWithRetries_loop ::
  "(nat \<Rightarrow> error + 'a) \<Rightarrow> retryConfig \<Rightarrow> nat \<Rightarrow> nat \<Rightarrow> 'a result option \<times> event list" where
  "runWithRetries_loop callback retryConfig attempt calls =
     (if int attempt \<le> maxRetries retryConfig then
        (case callback calls of
           Inr data \<Rightarrow> (Some (Success data), [Invoke])
         | Inl e \<Rightarrow>
             (case stopRetries retryConfig e of (shouldStop, error) \<Rightarrow>
                if shouldStop then (Some (Failure error), [Invoke])
                else if int attempt \<ge> maxRetries retryConfig
                  then (Some (Failure (exhausted (maxRetries retryConfig))), [Invoke])
                else (let delay = backoffDelay (interval retryConfig) attempt in
                      case runWithRetries_loop callback retryConfig (attempt + 1) (calls + 1) of
                        (r, tr) \<Rightarrow> (r, Invoke # Sleep delay # tr))))
      else (None, []))"
  by pat_completeness auto
termination
  by (relation "measure (\<lambda>(cb, cfg, attempt, calls). nat (maxRetries cfg + 1 - int attempt))") auto

definition runWithRetries ::
  "(nat \<Rightarrow> error + 'a) \<Rightarrow> retryConfig \<Rightarrow> 'a result option \<times> event list" where
  "runWithRetries callback retryConfig = runWithRetries_loop callback retryConfig 1 0"

text \<open>
  The engine of \<^verbatim>\<open>src/octokit-wrapper.js\<close> (lines 216-241; \<^verbatim>\<open>src/unnamed/part_001\<close> has the
  same text).  It destructures only \<^verbatim>\<open>maxRetries\<close> and \<^verbatim>\<open>interval\<close>: it has no stop
  predicate, and a \<^verbatim>\<open>stopRetries\<close> field of the configuration is never read.
\<close>

function runWithRetries_wrapper_loop ::
  "(nat \<Rightarrow> error + 'a) \<Rightarrow> retryConfig \<Rightarrow> nat \<Rightarrow> nat \<Rightarrow> 'a result option \<times> event list" where
  "runWithRetries_wrapper_loop callback retryConfig attempt calls =
     (if int attempt \<le> maxRetries retryConfig then
        (case callback calls of
           Inr data \<Rightarrow> (Some (Success data), [Invoke])
         | Inl e \<Rightarrow>
             if int attempt \<ge> maxRetries retryConfig
               then (Some (Failure (exhausted (maxRetries retryConfig))), [Invoke])
             else (let delay = backoffDelay (interval retryConfig) attempt in
                   case runWithRetries_wrapper_loop callback retryConfig (attempt + 1) (calls + 1) of
                     (r, tr) \<Rightarrow> (r, Invoke # Sleep delay # tr)))
      else (None, []))"
  by pat_completeness auto
termination
  by (relation "measure (\<lambda>(cb, cfg, attempt, calls). nat (maxRetries cfg + 1 - int attempt))") auto

definition runWithRetries_wrapper ::
  "(nat \<Rightarrow> error + 'a) \<Rightarrow> retryConfig \<Rightarrow> 'a result option \<times> event list" where
  "runWithRetries_wrapper callback retryConfig = runWithRetries_wrapper_loop callback retryConfig 1 0"

text \<open>
  The shape of a trace: attempts \<open>a, a+1, \<dots>, m-1\<close> each fail and are each followed by
  their backoff delay.  A whole run that ends at attempt \<open>m\<close> has the trace
  \<open>backoff iv 1 m @ [Invoke]\<close>.
\<close>

definition backoff :: "int \<Rightarrow> nat \<Rightarrow> nat \<Rightarrow> event list" where
  "backoff iv a m = concat (map (\<lambda>i. [Invoke, Sleep (backoffDelay iv i)]) [a..<m])"

section \<open>Values\<close>

text \<open>
  Dynamically typed arguments.  \<open>TaskRef r\<close> is a reference to the \<^verbatim>\<open>Task\<close> object \<open>r\<close>;
  \<open>JObject a\<close> is a reference to a plain object (no \<^verbatim>\<open>getName\<close>, \<^verbatim>\<open>setChain\<close> or
  \<^verbatim>\<open>run\<close> method); \<open>JFun n\<close> is a function value, \<open>n\<close> its identity.  Equality of
  \<open>jsvalue\<close> is \<^verbatim>\<open>===\<close>: by value on primitives, by reference on objects and functions.
\<close>

datatype jsvalue =
    JUndefined | JNull | JBool bool | JNum int | JStr string
  | JFun nat | JObject nat | TaskRef nat

fun typeof :: "jsvalue \<Rightarrow> string" where
  "typeof JUndefined = ''undefined''"
| "typeof JNull = ''object''"
| "typeof (JBool b) = ''boolean''"
| "typeof (JNum n) = ''number''"
| "typeof (JStr s) = ''string''"
| "typeof (JFun f) = ''function''"
| "typeof (JObject a) = ''object''"
| "typeof (TaskRef r) = ''object''"

fun truthy :: "jsvalue \<Rightarrow> bool" where
  "truthy JUndefined = False"
| "truthy JNull = False"
| "truthy (JBool b) = b"
| "truthy (JNum n) = (n \<noteq> 0)"
| "truthy (JStr s) = (s \<noteq> [])"
| "truthy v = True"

text \<open>\<^verbatim>\<open>!v\<close> is a boolean primitive; \<^verbatim>\<open>v instanceof Task\<close> holds of Task objects only.\<close>

definition not_js :: "jsvalue \<Rightarrow> jsvalue" where
  "not_js v = JBool (\<not> truthy v)"

fun instanceof_Task :: "jsvalue \<Rightarrow> bool" where
  "instanceof_Task (TaskRef r) = True"
| "instanceof_Task v = False"

section \<open>The request builder\<close>

text \<open>
  \<^verbatim>\<open>createRequest\<close> builds two plain objects, \<^verbatim>\<open>initialState\<close> and \<^verbatim>\<open>retryConfig\<close>, and
  hands them to \<^verbatim>\<open>buildRequest\<close>, which returns an object of closures over them.  Plain
  objects live in a store: \<open>objects \<sigma> a\<close> are the properties of the object at address \<open>a\<close>,
  and the addresses below \<open>fresh \<sigma>\<close> are the ones allocated so far.  An object literal
  allocates; nothing else writes to the store.
\<close>

type_synonym object = "string \<rightharpoonup> jsvalue"

record store =
  objects :: "nat \<Rightarrow> object"
  fresh :: nat

definition alloc :: "object \<Rightarrow> store \<Rightarrow> nat \<times> store" where
  "alloc obj \<sigma> = (fresh \<sigma>, \<sigma>\<lparr>objects := (objects \<sigma>)(fresh \<sigma> := obj), fresh := Suc (fresh \<sigma>)\<rparr>)"

text \<open>
  The own properties that a spread \<^verbatim>\<open>{ ...v }\<close> copies: those of the object when \<open>v\<close> is
  a plain object, none for \<^verbatim>\<open>undefined\<close>, \<^verbatim>\<open>null\<close>, booleans, numbers and functions
  (the indexed characters that a string would contribute are not modelled).
\<close>

fun properties :: "store \<Rightarrow> jsvalue \<Rightarrow> object" where
  "properties \<sigma> (JObject a) = objects \<sigma> a"
| "properties \<sigma> v = Map.empty"

text \<open>
  A builder is represented by what its closures capture: the \<^verbatim>\<open>state\<close> object and the
  \<^verbatim>\<open>retryConfig\<close> value.  \<^verbatim>\<open>runWith\<close> passes exactly these two to \<^verbatim>\<open>attemptRequest\<close>;
  \<open>descriptor\<close> and \<open>retryPolicy\<close> read them.
\<close>

record requestBuilder =
  stateRef :: nat
  retryConfigVal :: jsvalue

definition buildRequest :: "nat \<Rightarrow> jsvalue \<Rightarrow> requestBuilder" where
  "buildRequest state retryConfig = \<lparr>stateRef = state, retryConfigVal = retryConfig\<rparr>"

definition descriptor :: "store \<Rightarrow> requestBuilder \<Rightarrow> object" where
  "descriptor \<sigma> b = objects \<sigma> (stateRef b)"

definition retryPolicy :: "store \<Rightarrow> requestBuilder \<Rightarrow> object" where
  "retryPolicy \<sigma> b = properties \<sigma> (retryConfigVal b)"

text \<open>
  The builder of \<^verbatim>\<open>src/unnamed/part_000\<close> (lines 186-241).  \<open>JFun 0\<close> stands for the default
  predicate \<^verbatim>\<open>(error) => [error.status === 404, error]\<close>.
\<close>

definition createRequest :: "jsvalue \<Rightarrow> jsvalue \<Rightarrow> store \<Rightarrow> requestBuilder \<times> store" where
  "createRequest restQuery queryObject \<sigma> =
     (case alloc [''maxRetries'' \<mapsto> JNum 3, ''interval'' \<mapsto> JNum 2000, ''stopRetries'' \<mapsto> JFun 0] \<sigma> of
        (retryConfig, \<sigma>1) \<Rightarrow>
          (case alloc [''restQuery'' \<mapsto> restQuery, ''queryObject'' \<mapsto> queryObject,
                       ''propertyName'' \<mapsto> JNull] \<sigma>1 of
             (initialState, \<sigma>2) \<Rightarrow> (buildRequest initialState (JObject retryConfig), \<sigma>2)))"

definition withRetries ::
  "requestBuilder \<Rightarrow> jsvalue \<Rightarrow> store \<Rightarrow> requestBuilder completion \<times> store" where
  "withRetries b v \<sigma> =
     (if typeof v \<noteq> ''number'' then (Throw (Error ''maxRetries must be a number!''), \<sigma>)
      else (case alloc ((properties \<sigma> (retryConfigVal b))(''maxRetries'' \<mapsto> v)) \<sigma> of
              (a, \<sigma>') \<Rightarrow> (Return (buildRequest (stateRef b) (JObject a)), \<sigma>')))"

definition withInterval ::
  "requestBuilder \<Rightarrow> jsvalue \<Rightarrow> store \<Rightarrow> requestBuilder completion \<times> store" where
  "withInterval b v \<sigma> =
     (if typeof v \<noteq> ''number'' then (Throw (Error ''interval must be a number!''), \<sigma>)
      else (case alloc ((properties \<sigma> (retryConfigVal b))(''interval'' \<mapsto> v)) \<sigma> of
              (a, \<sigma>') \<Rightarrow> (Return (buildRequest (stateRef b) (JObject a)), \<sigma>')))"

definition withRetryBreaker ::
  "requestBuilder \<Rightarrow> jsvalue \<Rightarrow> store \<Rightarrow> requestBuilder completion \<times> store" where
  "withRetryBreaker b callback \<sigma> =
     (if typeof callback \<noteq> ''function'' then (Throw (Error ''callback must be a function!''), \<sigma>)
      else (case alloc ((properties \<sigma> (retryConfigVal b))(''stopRetries'' \<mapsto> callback)) \<sigma> of
              (a, \<sigma>') \<Rightarrow> (Return (buildRequest (stateRef b) (JObject a)), \<sigma>')))"

definition withRetryConfig ::
  "requestBuilder \<Rightarrow> jsvalue \<Rightarrow> store \<Rightarrow> requestBuilder completion \<times> store" where
  "withRetryConfig b cfg \<sigma> = (Return (buildRequest (stateRef b) cfg), \<sigma>)"

definition withProperty ::
  "requestBuilder \<Rightarrow> jsvalue \<Rightarrow> store \<Rightarrow> requestBuilder completion \<times> store" where
  "withProperty b propertyName \<sigma> =
     (case alloc ((objects \<sigma> (stateRef b))(''propertyName'' \<mapsto> propertyName)) \<sigma> of
        (a, \<sigma>') \<Rightarrow> (Return (buildRequest a (retryConfigVal b)), \<sigma>'))"

text \<open>
  The builder of \<^verbatim>\<open>src/octokit-wrapper.js\<close> (lines 181-206; \<^verbatim>\<open>src/unnamed/part_001\<close> has
  the same text): no stop predicate, and no check of any argument.
\<close>

definition createRequest_wrapper :: "jsvalue \<Rightarrow> jsvalue \<Rightarrow> store \<Rightarrow> requestBuilder \<times> store" where
  "createRequest_wrapper restQuery queryObject \<sigma> =
     (case alloc [''maxRetries'' \<mapsto> JNum 3, ''interval'' \<mapsto> JNum 2000] \<sigma> of
        (retryConfig, \<sigma>1) \<Rightarrow>
          (case alloc [''restQuery'' \<mapsto> restQuery, ''queryObject'' \<mapsto> queryObject,
                       ''propertyName'' \<mapsto> JNull] \<sigma>1 of
             (initialState, \<sigma>2) \<Rightarrow> (buildRequest initialState (JObject retryConfig), \<sigma>2)))"

definition withRetries_wrapper ::
  "requestBuilder \<Rightarrow> jsvalue \<Rightarrow> store \<Rightarrow> requestBuilder completion \<times> store" where
  "withRetries_wrapper b v \<sigma> =
     (case alloc ((properties \<sigma> (retryConfigVal b))(''maxRetries'' \<mapsto> v)) \<sigma> of
        (a, \<sigma>') \<Rightarrow> (Return (buildRequest (stateRef b) (JObject a)), \<sigma>'))"

definition withInterval_wrapper ::
  "requestBuilder \<Rightarrow> jsvalue \<Rightarrow> store \<Rightarrow> requestBuilder completion \<times> store" where
  "withInterval_wrapper b v \<sigma> =
     (case alloc ((properties \<sigma> (retryConfigVal b))(''interval'' \<mapsto> v)) \<sigma> of
        (a, \<sigma>') \<Rightarrow> (Return (buildRequest (stateRef b) (JObject a)), \<sigma>'))"

definition withProperty_wrapper ::
  "requestBuilder \<Rightarrow> jsvalue \<Rightarrow> store \<Rightarrow> requestBuilder completion \<times> store" where
  "withProperty_wrapper b propertyName \<sigma> =
     (case alloc ((objects \<sigma> (stateRef b))(''propertyName'' \<mapsto> propertyName)) \<sigma> of
        (a, \<sigma>') \<Rightarrow> (Return (buildRequest a (retryConfigVal b)), \<sigma>'))"

text \<open>A builder is well formed in a store when what it captures has been allocated there.\<close>

fun allocated :: "store \<Rightarrow> jsvalue \<Rightarrow> bool" where
  "allocated \<sigma> (JObject a) = (a < fresh \<sigma>)"
| "allocated \<sigma> v = True"

definition wf_builder :: "store \<Rightarrow> requestBuilder \<Rightarrow> bool" where
  "wf_builder \<sigma> b = (stateRef b < fresh \<sigma> \<and> allocated \<sigma> (retryConfigVal b))"

definition emptyStore :: store where
  "emptyStore = \<lparr>objects = (\<lambda>a. Map.empty), fresh = 0\<rparr>"

text \<open>
  \<open>derived res \<sigma> b d p\<close>: the call on builder \<open>b\<close> in store \<open>\<sigma>\<close> returned a builder
  other than \<open>b\<close>, whose descriptor is \<open>d\<close> and whose policy is \<open>p\<close>, and left \<open>b\<close> and
  every object allocated in \<open>\<sigma>\<close> as they were.
\<close>

definition derived ::
  "requestBuilder completion \<times> store \<Rightarrow> store \<Rightarrow> requestBuilder \<Rightarrow> object \<Rightarrow> object \<Rightarrow> bool" where
  "derived res \<sigma> b d p \<longleftrightarrow>
     (\<exists>b'. fst res = Return b' \<and> b' \<noteq> b \<and> wf_builder (snd res) b' \<and>
           descriptor (snd res) b' = d \<and> retryPolicy (snd res) b' = p) \<and>
     descriptor (snd res) b = descriptor \<sigma> b \<and>
     retryPolicy (snd res) b = retryPolicy \<sigma> b \<and>
     (\<forall>a<fresh \<sigma>. objects (snd res) a = objects \<sigma> a) \<and>
     fresh \<sigma> \<le> fresh (snd res)"

section \<open>Task\<close>

text \<open>
  \<^verbatim>\<open>Task\<close> and \<^verbatim>\<open>TaskChain\<close> objects are mutable and refer to each other, so they live
  in a heap: \<open>taskObj h r\<close> is the Task object at reference \<open>r\<close>, \<open>chainObj h c\<close> the
  TaskChain object at reference \<open>c\<close>.  A Task's private field \<^verbatim>\<open>#chain\<close> is \<open>chainRef\<close>
  (\<open>None\<close> is \<^verbatim>\<open>null\<close>); a TaskChain's private fields \<^verbatim>\<open>#chain\<close> and \<^verbatim>\<open>#stopChain\<close> are
  \<open>chain\<close> and \<open>stopChain\<close> (\<open>None\<close> is \<^verbatim>\<open>undefined\<close>, the value before the first
  \<^verbatim>\<open>breakChain\<close> or \<^verbatim>\<open>run\<close>).

  The context that \<^verbatim>\<open>TaskChain.run\<close> builds is \<^verbatim>\<open>{ inputs, steps }\<close>.  An action is an
  effectful function of the context; \<open>action t ctx i\<close> is the outcome of its invocation
  number \<open>i\<close> (from 0) within one \<^verbatim>\<open>Task.run\<close>.  Actions that write to the context or to
  the chain are outside the model.  The declared inputs of a Task (\<^verbatim>\<open>config.inputs\<close>,
  \<^verbatim>\<open>getInputs\<close>) are not modelled; no claim is about them.
\<close>

record executionContext =
  inputs :: "string \<rightharpoonup> jsvalue"
  steps :: "string \<rightharpoonup> error + jsvalue"

text \<open>The configuration object; \<open>None\<close> is an absent property, which takes its default.\<close>

record config =
  retries :: "int option"
  cfg_interval :: "int option"
  cfg_stopRetries :: "(error \<Rightarrow> bool \<times> error) option"

record Task =
  label :: string
  action :: "executionContext \<Rightarrow> nat \<Rightarrow> error + jsvalue"
  config :: config
  chainRef :: "nat option"

record TaskChain =
  chain :: "jsvalue list"
  stopChain :: "bool option"

record heap =
  taskObj :: "nat \<Rightarrow> Task"
  chainObj :: "nat \<Rightarrow> TaskChain"

text \<open>
  \<^verbatim>\<open>string.isEmptyOrNull\<close> comes from the package \<^verbatim>\<open>@stgroves/js-utilities\<close>; labels are
  strings here, so it is the test for the empty string.  A string of the model is a list
  of code units below 256; among them \<^verbatim>\<open>/\s/\<close> matches the tab, the line feed, the vertical
  tab, the form feed, the carriage return, the space and the no-break space.  The other
  characters that \<^verbatim>\<open>/\s/\<close> matches have code units from 0x1680 on and are not strings of the
  model.
\<close>

definition isEmptyOrNull :: "string \<Rightarrow> bool" where
  "isEmptyOrNull s = (s = [])"

definition whitespace :: "char \<Rightarrow> bool" where
  "whitespace c = (c \<in> set [CHR 0x09, CHR 0x0A, CHR 0x0B, CHR 0x0C, CHR 0x0D, CHR 0x20, CHR 0xA0])"

text \<open>
  The destructuring with defaults that \<^verbatim>\<open>#validateInputs\<close> and \<^verbatim>\<open>run\<close> both make:
  \<^verbatim>\<open>retries = 3\<close>, \<^verbatim>\<open>interval = 2000\<close>, \<^verbatim>\<open>stopRetries = (error) => [error.status === 404, error]\<close>.
\<close>

definition configPolicy :: "config \<Rightarrow> retryConfig" where
  "configPolicy c =
     \<lparr>maxRetries = (case retries c of None \<Rightarrow> 3 | Some n \<Rightarrow> n),
      interval = (case cfg_interval c of None \<Rightarrow> 2000 | Some n \<Rightarrow> n),
      stopRetries = (case cfg_stopRetries c of
                       None \<Rightarrow> (\<lambda>error. (status error = Some 404, error))
                     | Some f \<Rightarrow> f)\<rparr>"

definition policy :: "Task \<Rightarrow> retryConfig" where
  "policy t = configPolicy (config t)"

text \<open>The constructor: \<^verbatim>\<open>#validateInputs\<close>, then the fields, with \<^verbatim>\<open>#chain = null\<close>.\<close>

definition Task_validateInputs :: "string \<Rightarrow> config \<Rightarrow> error option" where
  "Task_validateInputs l c =
     (if isEmptyOrNull l then Some (Error ''Task must have a label!'')
      else if list_ex whitespace l then Some (Error ''label must not contain any whitespaces!'')
      else if maxRetries (configPolicy c) < 1 then Some (Error ''retries must be at least 1!'')
      else if interval (configPolicy c) < 500 then Some (Error ''interval must be at least 500(ms)!'')
      else None)"

definition newTask ::
  "string \<Rightarrow> (executionContext \<Rightarrow> nat \<Rightarrow> error + jsvalue) \<Rightarrow> config \<Rightarrow> error + Task" where
  "newTask l a c =
     (case Task_validateInputs l c of
        Some e \<Rightarrow> Inl e
      | None \<Rightarrow> Inr \<lparr>label = l, action = a, config = c, chainRef = None\<rparr>)"

text \<open>\<^verbatim>\<open>TaskChain.breakChain(value = true)\<close>: sets \<^verbatim>\<open>#stopChain\<close>.\<close>

definition breakChain :: "nat \<Rightarrow> bool \<Rightarrow> heap \<Rightarrow> heap" where
  "breakChain this v h =
     h\<lparr>chainObj := (chainObj h)(this := (chainObj h this)\<lparr>stopChain := Some v\<rparr>)\<rparr>"

text \<open>
  \<^verbatim>\<open>Task.#dispatchEvent(event, context, stopChain = true)\<close>.  The event goes to the global
  event target of the host.  What its listeners can do to the Task is to call
  \<^verbatim>\<open>event.detail.breakChain(value)\<close>: the environment is therefore a function from the event
  to the values that the listeners pass to \<^verbatim>\<open>breakChain\<close>, in call order (empty when there
  is no listener).  \<open>detail_breakChain\<close> is one such call on the local variable
  \<^verbatim>\<open>stopChain\<close>.  After the dispatch, a true \<^verbatim>\<open>stopChain\<close> calls
  \<^verbatim>\<open>this.#chain.breakChain()\<close>, a TypeError when \<^verbatim>\<open>#chain\<close> is \<^verbatim>\<open>null\<close>.
\<close>

datatype payload = ResultCtx jsvalue | ErrorCtx error

record customEvent =
  ev_type :: string
  ev_task :: nat
  ev_context :: payload

type_synonym listeners = "customEvent \<Rightarrow> bool list"

definition detail_breakChain :: "bool \<Rightarrow> bool \<Rightarrow> bool" where
  "detail_breakChain stopChain0 v = (if v = stopChain0 then stopChain0 else v)"

definition decision :: "listeners \<Rightarrow> nat \<Rightarrow> string \<Rightarrow> payload \<Rightarrow> bool \<Rightarrow> bool" where
  "decision L this event ctx stopChain0 =
     foldl detail_breakChain stopChain0 (L \<lparr>ev_type = event, ev_task = this, ev_context = ctx\<rparr>)"

definition Task_dispatchEvent ::
  "listeners \<Rightarrow> nat \<Rightarrow> string \<Rightarrow> payload \<Rightarrow> bool \<Rightarrow> heap \<Rightarrow> error + heap" where
  "Task_dispatchEvent L this event ctx stopChain0 h =
     (if decision L this event ctx stopChain0 then
        (case chainRef (taskObj h this) of
           None \<Rightarrow> Inl TypeError
         | Some c \<Rightarrow> Inr (breakChain c True h))
      else Inr h)"

text \<open>
  \<^verbatim>\<open>Task.run(context)\<close>.  The \<^verbatim>\<open>try\<close> block holds the action and the success signal, so
  an exception of either is caught (\<open>Task_try\<close>); the failure signals are sent from the
  \<^verbatim>\<open>catch\<close> block, so their exception leaves \<^verbatim>\<open>run\<close> (\<open>Task_fail\<close>).  \<open>Return None\<close> is
  the \<^verbatim>\<open>undefined\<close> of a loop that is left without a \<^verbatim>\<open>return\<close>.
\<close>

definition Task_try ::
  "listeners \<Rightarrow> nat \<Rightarrow> executionContext \<Rightarrow> nat \<Rightarrow> heap \<Rightarrow> error + jsvalue \<times> heap" where
  "Task_try L this ctx calls h =
     (case action (taskObj h this) ctx calls of
        Inl e \<Rightarrow> Inl e
      | Inr result \<Rightarrow>
          (case Task_dispatchEvent L this ''taskSuccess'' (ResultCtx result) False h of
             Inl e \<Rightarrow> Inl e
           | Inr h' \<Rightarrow> Inr (result, h')))"

definition Task_fail ::
  "listeners \<Rightarrow> nat \<Rightarrow> error \<Rightarrow> heap \<Rightarrow>
   (bool \<times> (error + jsvalue)) option completion \<times> heap \<times> event list" where
  "Task_fail L this error h =
     (case Task_dispatchEvent L this ''taskError'' (ErrorCtx error) True h of
        Inl e \<Rightarrow> (Throw e, h, [Invoke])
      | Inr h' \<Rightarrow> (Return (Some (False, Inl error)), h', [Invoke]))"

function Task_run_loop ::
  "listeners \<Rightarrow> nat \<Rightarrow> executionContext \<Rightarrow> heap \<Rightarrow> nat \<Rightarrow> nat \<Rightarrow>
   (bool \<times> (error + jsvalue)) option completion \<times> heap \<times> event list" where
  "Task_run_loop L this ctx h attempt calls =
     (if int attempt \<le> maxRetries (policy (taskObj h this)) then
        (case Task_try L this ctx calls h of
           Inr (result, h') \<Rightarrow> (Return (Some (True, Inr result)), h', [Invoke])
         | Inl e \<Rightarrow>
             (case stopRetries (policy (taskObj h this)) e of (shouldStop, error) \<Rightarrow>
                if shouldStop then Task_fail L this error h
                else if int attempt \<ge> maxRetries (policy (taskObj h this))
                  then Task_fail L this (exhausted (maxRetries (policy (taskObj h this)))) h
                else (let delay = backoffDelay (interval (policy (taskObj h this))) attempt in
                      case Task_run_loop L this ctx h (attempt + 1) (calls + 1) of
                        (r, h', tr) \<Rightarrow> (r, h', Invoke # Sleep delay # tr))))
      else (Return None, h, []))"
  by pat_completeness auto
termination
  by (relation "measure (\<lambda>(L, this, ctx, h, attempt, calls).
        nat (maxRetries (policy (taskObj h this)) + 1 - int attempt))") auto

definition Task_run ::
  "listeners \<Rightarrow> nat \<Rightarrow> executionContext \<Rightarrow> heap \<Rightarrow>
   (bool \<times> (error + jsvalue)) option completion \<times> heap \<times> event list" where
  "Task_run L this ctx h = Task_run_loop L this ctx h 1 0"

text \<open>
  What \<^verbatim>\<open>Task.run\<close> makes of a result of the retry engine, when the success signal does
  not throw: the pair \<^verbatim>\<open>[true, result]\<close> or \<^verbatim>\<open>[false, error]\<close> after the signal.
\<close>

definition finish ::
  "listeners \<Rightarrow> nat \<Rightarrow> heap \<Rightarrow> jsvalue result option \<times> event list \<Rightarrow>
   (bool \<times> (error + jsvalue)) option completion \<times> heap \<times> event list" where
  "finish L this h x =
     (case x of
        (None, tr) \<Rightarrow> (Return None, h, tr)
      | (Some (Success v), tr) \<Rightarrow>
          (case Task_dispatchEvent L this ''taskSuccess'' (ResultCtx v) False h of
             Inl e \<Rightarrow> (Throw e, h, tr)
           | Inr h' \<Rightarrow> (Return (Some (True, Inr v)), h', tr))
      | (Some (Failure e), tr) \<Rightarrow>
          (case Task_dispatchEvent L this ''taskError'' (ErrorCtx e) True h of
             Inl te \<Rightarrow> (Throw te, h, tr)
           | Inr h' \<Rightarrow> (Return (Some (False, Inl e)), h', tr)))"

section \<open>TaskChain\<close>

text \<open>
  \<^verbatim>\<open>#validateTask\<close> tests \<^verbatim>\<open>!task instanceof Task\<close>, which parses as
  \<^verbatim>\<open>(!task) instanceof Task\<close>.
\<close>

definition validateTask :: "jsvalue \<Rightarrow> error option" where
  "validateTask task =
     (if instanceof_Task (not_js task) then Some (Error ''task is not an instance of Task!'')
      else None)"

definition validateLabel :: "string \<Rightarrow> error option" where
  "validateLabel l =
     (if isEmptyOrNull l then Some (Error ''label cannot be empty!'')
      else if list_ex whitespace l then Some (Error ''label must not contain any whitespaces!'')
      else None)"

text \<open>Method calls on an argument: a TypeError on anything that is not a Task.\<close>

fun getName :: "heap \<Rightarrow> jsvalue \<Rightarrow> error + string" where
  "getName h (TaskRef r) = Inr (label (taskObj h r))"
| "getName h v = Inl TypeError"

fun setChain :: "jsvalue \<Rightarrow> nat option \<Rightarrow> heap \<Rightarrow> error + heap" where
  "setChain (TaskRef r) c h =
     Inr (h\<lparr>taskObj := (taskObj h)(r := (taskObj h r)\<lparr>chainRef := c\<rparr>)\<rparr>)"
| "setChain v c h = Inl TypeError"

text \<open>\<^verbatim>\<open>this.#chain.findIndex((x) => x.getName() === label)\<close>; \<open>None\<close> is \<^verbatim>\<open>-1\<close>.\<close>

fun findIndex :: "heap \<Rightarrow> jsvalue list \<Rightarrow> string \<Rightarrow> error + nat option" where
  "findIndex h [] l = Inr None"
| "findIndex h (x # xs) l =
     (case getName h x of
        Inl e \<Rightarrow> Inl e
      | Inr n \<Rightarrow>
          if n = l then Inr (Some 0)
          else (case findIndex h xs l of
                  Inl e \<Rightarrow> Inl e
                | Inr None \<Rightarrow> Inr None
                | Inr (Some idx) \<Rightarrow> Inr (Some (Suc idx))))"

definition findByLabel :: "heap \<Rightarrow> nat \<Rightarrow> string \<Rightarrow> error + nat" where
  "findByLabel h this l =
     (case findIndex h (chain (chainObj h this)) l of
        Inl e \<Rightarrow> Inl e
      | Inr None \<Rightarrow> Inl (Error (l @ '' cannot be found!''))
      | Inr (Some idx) \<Rightarrow> Inr idx)"

fun indexOf :: "jsvalue list \<Rightarrow> jsvalue \<Rightarrow> nat option" where
  "indexOf [] v = None"
| "indexOf (x # xs) v =
     (if x = v then Some 0
      else (case indexOf xs v of None \<Rightarrow> None | Some idx \<Rightarrow> Some (Suc idx)))"

text \<open>Writing \<^verbatim>\<open>#chain\<close>; \<^verbatim>\<open>splice(idx, 0, x)\<close> and \<^verbatim>\<open>splice(idx, 1)\<close>.\<close>

definition set_chain :: "nat \<Rightarrow> jsvalue list \<Rightarrow> heap \<Rightarrow> heap" where
  "set_chain this xs h = h\<lparr>chainObj := (chainObj h)(this := (chainObj h this)\<lparr>chain := xs\<rparr>)\<rparr>"

definition splice_insert :: "nat \<Rightarrow> 'a \<Rightarrow> 'a list \<Rightarrow> 'a list" where
  "splice_insert idx x xs = take idx xs @ x # drop idx xs"

definition splice_remove :: "nat \<Rightarrow> 'a list \<Rightarrow> 'a list" where
  "splice_remove idx xs = take idx xs @ drop (Suc idx) xs"

text \<open>
  The last statement of each operation, \<^verbatim>\<open>task.setChain(c)\<close>: it runs after the array
  has been written, so its exception leaves the array written.
\<close>

definition attach :: "jsvalue \<Rightarrow> nat option \<Rightarrow> heap \<Rightarrow> unit completion \<times> heap" where
  "attach task c h =
     (case setChain task c h of Inl e \<Rightarrow> (Throw e, h) | Inr h' \<Rightarrow> (Return (), h'))"

definition addTask :: "nat \<Rightarrow> jsvalue \<Rightarrow> heap \<Rightarrow> unit completion \<times> heap" where
  "addTask this task h =
     (case validateTask task of
        Some e \<Rightarrow> (Throw e, h)
      | None \<Rightarrow> attach task (Some this) (set_chain this (chain (chainObj h this) @ [task]) h))"

definition removeTask :: "nat \<Rightarrow> jsvalue \<Rightarrow> heap \<Rightarrow> unit completion \<times> heap" where
  "removeTask this task h =
     (case validateTask task of
        Some e \<Rightarrow> (Throw e, h)
      | None \<Rightarrow>
          (case indexOf (chain (chainObj h this)) task of
             None \<Rightarrow>
               (case getName h task of
                  Inl e \<Rightarrow> (Throw e, h)
                | Inr n \<Rightarrow> (Throw (Error (n @ '' cannot be found!'')), h))
           | Some idx \<Rightarrow>
               attach task None (set_chain this (splice_remove idx (chain (chainObj h this))) h)))"

definition insertBeforeTask ::
  "nat \<Rightarrow> jsvalue \<Rightarrow> string \<Rightarrow> heap \<Rightarrow> unit completion \<times> heap" where
  "insertBeforeTask this task l h =
     (case validateTask task of
        Some e \<Rightarrow> (Throw e, h)
      | None \<Rightarrow>
          (case validateLabel l of
             Some e \<Rightarrow> (Throw e, h)
           | None \<Rightarrow>
               (case findByLabel h this l of
                  Inl e \<Rightarrow> (Throw e, h)
                | Inr idx \<Rightarrow>
                    attach task (Some this)
                      (set_chain this (splice_insert idx task (chain (chainObj h this))) h))))"

definition insertAfterTask ::
  "nat \<Rightarrow> jsvalue \<Rightarrow> string \<Rightarrow> heap \<Rightarrow> unit completion \<times> heap" where
  "insertAfterTask this task l h =
     (case validateTask task of
        Some e \<Rightarrow> (Throw e, h)
      | None \<Rightarrow>
          (case validateLabel l of
             Some e \<Rightarrow> (Throw e, h)
           | None \<Rightarrow>
               (case findByLabel h this l of
                  Inl e \<Rightarrow> (Throw e, h)
                | Inr idx \<Rightarrow>
                    attach task (Some this)
                      (set_chain this (splice_insert (idx + 1) task (chain (chainObj h this))) h))))"







text \<open>The label of a chain member that is a Task.\<close>

fun labelOf :: "heap \<Rightarrow> jsvalue \<Rightarrow> string" where
  "labelOf h (TaskRef r) = label (taskObj h r)"
| "labelOf h v = []"

definition labels :: "heap \<Rightarrow> nat \<Rightarrow> string list" where
  "labels h c = map (labelOf h) (chain (chainObj h c))"

text \<open>
  Two heaps have the same structure when they hold the same Task objects and the same
  chain arrays; only abort flags may differ.
\<close>

definition same_structure :: "heap \<Rightarrow> heap \<Rightarrow> bool" where
  "same_structure h h' \<longleftrightarrow>
     taskObj h' = taskObj h \<and> (\<forall>k. chain (chainObj h' k) = chain (chainObj h k))"

section \<open>Concrete inputs\<close>

text \<open>The default policy of \<^verbatim>\<open>createRequest\<close> and of a Task without configuration.\<close>

definition defaultPolicy :: retryConfig where
  "defaultPolicy =
     \<lparr>maxRetries = 3, interval = 2000,
      stopRetries = (\<lambda>error. (status error = Some 404, error))\<rparr>"

text \<open>Operations: one that always fails with status 500, one that fails with 500 and then
  with 404, one that succeeds at its third invocation.\<close>

definition alwaysFails :: "nat \<Rightarrow> error + jsvalue" where
  "alwaysFails i = Inl (RequestError 500 ''Server Error'')"

definition notFoundSecond :: "nat \<Rightarrow> error + jsvalue" where
  "notFoundSecond i =
     (if i = 0 then Inl (RequestError 500 ''Server Error'')
      else Inl (RequestError 404 ''Not Found''))"

definition succeedsThird :: "nat \<Rightarrow> error + jsvalue" where
  "succeedsThird i = (if i < 2 then Inl (RequestError 500 ''Server Error'') else Inr (JNum 7))"

definition oncePolicy :: retryConfig where
  "oncePolicy = defaultPolicy\<lparr>maxRetries := 1\<rparr>"

text \<open>An operation that always fails with status 404, and a policy with 1026 attempts.\<close>

definition alwaysNotFound :: "nat \<Rightarrow> error + jsvalue" where
  "alwaysNotFound i = Inl (RequestError 404 ''Not Found'')"

definition longPolicy :: retryConfig where
  "longPolicy = defaultPolicy\<lparr>maxRetries := 1026\<rparr>"

text \<open>
  Tasks: \<open>0\<close> and \<open>2\<close> succeed and share the label \<open>x\<close>; \<open>1\<close>, labelled \<open>y\<close>, fails
  with status 404, which the default predicate does not retry; \<open>3\<close>, labelled \<open>z\<close>,
  always fails with status 500; \<open>5\<close>, labelled \<open>v\<close>, does so too and is configured
  with \<^verbatim>\<open>retries: 1\<close>; \<open>6\<close>, labelled \<^verbatim>\<open>__proto__\<close>, succeeds; every other reference is a
  Task labelled \<open>w\<close> that succeeds at
  its third attempt.  In \<open>heap0\<close> no Task is attached and every chain is
  empty.
\<close>

definition noConfig :: config where
  "noConfig = \<lparr>retries = None, cfg_interval = None, cfg_stopRetries = None\<rparr>"

definition onceConfig :: config where
  "onceConfig = \<lparr>retries = Some 1, cfg_interval = None, cfg_stopRetries = None\<rparr>"

definition mkTask :: "string \<Rightarrow> (nat \<Rightarrow> error + jsvalue) \<Rightarrow> Task" where
  "mkTask l outcomes = \<lparr>label = l, action = (\<lambda>ctx. outcomes), config = noConfig, chainRef = None\<rparr>"

definition heap0 :: heap where
  "heap0 =
     \<lparr>taskObj = (\<lambda>r. if r = 0 then mkTask ''x'' (\<lambda>i. Inr (JNum 1))
                       else if r = 1 then mkTask ''y'' alwaysNotFound
                       else if r = 2 then mkTask ''x'' (\<lambda>i. Inr (JNum 3))
                       else if r = 3 then mkTask ''z'' alwaysFails
                       else if r = 5 then (mkTask ''v'' alwaysFails)\<lparr>config := onceConfig\<rparr>
                       else if r = 6 then mkTask ''__proto__'' (\<lambda>i. Inr (JNum 6))
                       else mkTask ''w'' succeedsThird),
      chainObj = (\<lambda>c. \<lparr>chain = [], stopChain = None\<rparr>)\<rparr>"

text \<open>No listener; a listener that passes \<open>False\<close>; one that passes \<open>True\<close>.\<close>

definition quiet :: listeners where
  "quiet ev = []"

definition overrideFalse :: listeners where
  "overrideFalse ev = [False]"

definition overrideTrue :: listeners where
  "overrideTrue ev = [True]"

definition emptyContext :: executionContext where
  "emptyContext = \<lparr>inputs = Map.empty, steps = Map.empty\<rparr>"

text \<open>Chain \<open>0\<close> after \<^verbatim>\<open>addTask\<close> of Task 0, of Tasks 0 and 1, and of Tasks 0, 1 and 2;
  chain \<open>1\<close> after \<^verbatim>\<open>addTask\<close> of Tasks 3 and 4; chain \<open>2\<close> after \<^verbatim>\<open>addTask\<close> of Task 6.\<close>

definition heap1 :: heap where
  "heap1 = snd (addTask 0 (TaskRef 0) heap0)"

definition heap2 :: heap where
  "heap2 = snd (addTask 0 (TaskRef 1) heap1)"

definition heap3 :: heap where
  "heap3 = snd (addTask 0 (TaskRef 2) heap2)"

definition heap4 :: heap where
  "heap4 = snd (addTask 1 (TaskRef 4) (snd (addTask 1 (TaskRef 3) heap0)))"


text \<open>A builder of each kind for one remote operation, in the store that
  \<^verbatim>\<open>createRequest\<close> leaves.\<close>

definition exampleBuilder :: requestBuilder where
  "exampleBuilder = fst (createRequest (JStr ''GET /repositories/{repository_id}'') JNull emptyStore)"

definition exampleStore :: store where
  "exampleStore = snd (createRequest (JStr ''GET /repositories/{repository_id}'') JNull emptyStore)"

definition wrapperBuilder :: requestBuilder where
  "wrapperBuilder = fst (createRequest_wrapper (JStr ''GET /repositories/{repository_id}'') JNull emptyStore)"

definition wrapperStore :: store where
  "wrapperStore = snd (createRequest_wrapper (JStr ''GET /repositories/{repository_id}'') JNull emptyStore)"

section \<open>Lemmas on the retry engine\<close>

declare runWithRetries_loop.simps [simp del]
declare runWithRetries_wrapper_loop.simps [simp del]
declare Task_run_loop.simps [simp del]

lemma backoff_empty [simp]: "backoff iv a a = []"
  by (simp add: backoff_def)

lemma backoff_step:
  "a < m \<Longrightarrow> backoff iv a m = Invoke # Sleep (backoffDelay iv a) # backoff iv (Suc a) m"
  by (simp add: backoff_def upt_conv_Cons)

lemma invocations_backoff:
  "a \<le> m \<Longrightarrow> invocations (backoff iv a m @ [Invoke]) = Suc (m - a)"
proof (induction "m - a" arbitrary: a)
  case 0
  then show ?case by (simp add: invocations_def)
next
  case (Suc d)
  then have lt: "a < m" by simp
  from Suc have "invocations (backoff iv (Suc a) m @ [Invoke]) = Suc (m - Suc a)" by simp
  with lt show ?case by (simp add: backoff_step invocations_def)
qed

text \<open>Attempts that fail without a stop signal, below the limit, are skipped over.\<close>

lemma loop_skip:
  assumes "\<forall>i<j. \<exists>e. cb (c + i) = Inl e \<and> \<not> fst (stopRetries cfg e)"
    and "int (a + j) \<le> maxRetries cfg"
  shows "runWithRetries_loop cb cfg a c =
    (fst (runWithRetries_loop cb cfg (a + j) (c + j)),
     backoff (interval cfg) a (a + j) @ snd (runWithRetries_loop cb cfg (a + j) (c + j)))"
  using assms
proof (induction j arbitrary: a c)
  case 0
  then show ?case by simp
next
  case (Suc j)
  from Suc.prems(1) obtain e where e: "cb c = Inl e" "\<not> fst (stopRetries cfg e)"
    by force
  have rest: "\<forall>i<j. \<exists>e. cb (Suc c + i) = Inl e \<and> \<not> fst (stopRetries cfg e)"
    using Suc.prems(1) by (metis Suc_less_eq add_Suc_shift)
  have bound: "int (Suc a + j) \<le> maxRetries cfg" using Suc.prems(2) by simp
  note ih = Suc.IH [OF rest bound]
  have lt: "int a < maxRetries cfg" using Suc.prems(2) by simp
  have "runWithRetries_loop cb cfg a c =
      (fst (runWithRetries_loop cb cfg (Suc a) (Suc c)),
       Invoke # Sleep (backoffDelay (interval cfg) a) # snd (runWithRetries_loop cb cfg (Suc a) (Suc c)))"
    using e lt by (subst runWithRetries_loop.simps) (simp add: split_beta)
  also have "\<dots> = (fst (runWithRetries_loop cb cfg (a + Suc j) (c + Suc j)),
     backoff (interval cfg) a (a + Suc j) @ snd (runWithRetries_loop cb cfg (a + Suc j) (c + Suc j)))"
    by (subst (1 2) ih) (simp add: backoff_step [of a "Suc (a + j)"])
  finally show ?case .
qed

lemma loop_stop:
  assumes "cb c = Inl e" "stopRetries cfg e = (True, err)" "int a \<le> maxRetries cfg"
  shows "runWithRetries_loop cb cfg a c = (Some (Failure err), [Invoke])"
  using assms by (subst runWithRetries_loop.simps) simp

lemma loop_exhausted:
  assumes "cb c = Inl e" "\<not> fst (stopRetries cfg e)" "int a = maxRetries cfg"
  shows "runWithRetries_loop cb cfg a c = (Some (Failure (exhausted (maxRetries cfg))), [Invoke])"
  using assms by (subst runWithRetries_loop.simps) (simp add: split_beta)

lemma loop_success:
  assumes "cb c = Inr v" "int a \<le> maxRetries cfg"
  shows "runWithRetries_loop cb cfg a c = (Some (Success v), [Invoke])"
  using assms by (subst runWithRetries_loop.simps) simp

text \<open>The three ways a run ends, from the first attempt.\<close>

lemma run_stop:
  assumes "1 \<le> k" "int k \<le> maxRetries cfg"
    and "\<forall>i<k - 1. \<exists>e. cb i = Inl e \<and> \<not> fst (stopRetries cfg e)"
    and "cb (k - 1) = Inl e" "stopRetries cfg e = (True, err)"
  shows "runWithRetries cb cfg = (Some (Failure err), backoff (interval cfg) 1 k @ [Invoke])"
proof -
  have "runWithRetries_loop cb cfg 1 0 =
      (fst (runWithRetries_loop cb cfg (1 + (k - 1)) (0 + (k - 1))),
       backoff (interval cfg) 1 (1 + (k - 1)) @ snd (runWithRetries_loop cb cfg (1 + (k - 1)) (0 + (k - 1))))"
    using assms by (intro loop_skip) auto
  moreover have "runWithRetries_loop cb cfg k (k - 1) = (Some (Failure err), [Invoke])"
    using assms by (intro loop_stop) auto
  ultimately show ?thesis using assms(1) by (simp add: runWithRetries_def)
qed

lemma run_exhausted:
  assumes "1 \<le> n" "maxRetries cfg = int n"
    and "\<forall>i<n. \<exists>e. cb i = Inl e \<and> \<not> fst (stopRetries cfg e)"
  shows "runWithRetries cb cfg =
    (Some (Failure (exhausted (int n))), backoff (interval cfg) 1 n @ [Invoke])"
proof -
  have "runWithRetries_loop cb cfg 1 0 =
      (fst (runWithRetries_loop cb cfg (1 + (n - 1)) (0 + (n - 1))),
       backoff (interval cfg) 1 (1 + (n - 1)) @ snd (runWithRetries_loop cb cfg (1 + (n - 1)) (0 + (n - 1))))"
    using assms by (intro loop_skip) auto
  moreover from assms obtain e where "cb (n - 1) = Inl e" "\<not> fst (stopRetries cfg e)"
    by (metis One_nat_def Suc_le_eq diff_less zero_less_one)
  then have "runWithRetries_loop cb cfg n (n - 1) = (Some (Failure (exhausted (maxRetries cfg))), [Invoke])"
    using assms by (intro loop_exhausted) auto
  ultimately show ?thesis using assms(1,2) by (simp add: runWithRetries_def)
qed

lemma run_success:
  assumes "1 \<le> j" "int j \<le> maxRetries cfg"
    and "\<forall>i<j - 1. \<exists>e. cb i = Inl e \<and> \<not> fst (stopRetries cfg e)"
    and "cb (j - 1) = Inr v"
  shows "runWithRetries cb cfg = (Some (Success v), backoff (interval cfg) 1 j @ [Invoke])"
proof -
  have "runWithRetries_loop cb cfg 1 0 =
      (fst (runWithRetries_loop cb cfg (1 + (j - 1)) (0 + (j - 1))),
       backoff (interval cfg) 1 (1 + (j - 1)) @ snd (runWithRetries_loop cb cfg (1 + (j - 1)) (0 + (j - 1))))"
    using assms by (intro loop_skip) auto
  moreover have "runWithRetries_loop cb cfg j (j - 1) = (Some (Success v), [Invoke])"
    using assms by (intro loop_success) auto
  ultimately show ?thesis using assms(1) by (simp add: runWithRetries_def)
qed

text \<open>Every run that makes an attempt has a trace of the backoff shape.\<close>

lemma loop_trace:
  "int a \<le> maxRetries cfg \<Longrightarrow>
   \<exists>m. a \<le> m \<and> int m \<le> maxRetries cfg \<and>
       snd (runWithRetries_loop cb cfg a c) = backoff (interval cfg) a m @ [Invoke]"
proof (induction cb cfg a c rule: runWithRetries_loop.induct)
  case (1 cb cfg a c)
  show ?case
  proof (cases "cb c")
    case (Inr v)
    with "1.prems" have "snd (runWithRetries_loop cb cfg a c) = backoff (interval cfg) a a @ [Invoke]"
      by (simp add: loop_success)
    with "1.prems" show ?thesis by blast
  next
    case (Inl e)
    obtain s err where se: "stopRetries cfg e = (s, err)" by (cases "stopRetries cfg e")
    show ?thesis
    proof (cases "s \<or> maxRetries cfg \<le> int a")
      case True
      with Inl se "1.prems" have "snd (runWithRetries_loop cb cfg a c) = backoff (interval cfg) a a @ [Invoke]"
        by (subst runWithRetries_loop.simps) auto
      with "1.prems" show ?thesis by blast
    next
      case False
      then have ns: "\<not> s" and lt: "\<not> maxRetries cfg \<le> int a" by auto
      have "int (a + 1) \<le> maxRetries cfg" using lt by simp
      from "1.IH" [OF "1.prems" Inl se [symmetric] ns lt refl this]
      obtain m where m: "a + 1 \<le> m" "int m \<le> maxRetries cfg"
        "snd (runWithRetries_loop cb cfg (a + 1) (c + 1)) = backoff (interval cfg) (a + 1) m @ [Invoke]"
        by blast
      have "snd (runWithRetries_loop cb cfg a c) =
          Invoke # Sleep (backoffDelay (interval cfg) a) # snd (runWithRetries_loop cb cfg (a + 1) (c + 1))"
        using Inl se ns lt "1.prems" by (subst runWithRetries_loop.simps) (simp add: split_beta)
      also have "\<dots> = backoff (interval cfg) a m @ [Invoke]"
        using m by (simp add: backoff_step [of a m])
      finally show ?thesis using m by (intro exI [of _ m]) simp
    qed
  qed
qed

text \<open>The engine without a stop predicate is the engine with a predicate that never stops.\<close>

lemma wrapper_loop_eq:
  "runWithRetries_wrapper_loop cb cfg a c =
   runWithRetries_loop cb (cfg\<lparr>stopRetries := \<lambda>e. (False, e)\<rparr>) a c"
proof (induction cb cfg a c rule: runWithRetries_wrapper_loop.induct)
  case (1 cb cfg a c)
  show ?case
  proof (cases "int a \<le> maxRetries cfg")
    case False
    then show ?thesis
      by (subst runWithRetries_wrapper_loop.simps, subst runWithRetries_loop.simps) simp
  next
    case le: True
    show ?thesis
    proof (cases "cb c")
      case (Inr v)
      with le show ?thesis
        by (subst runWithRetries_wrapper_loop.simps, subst runWithRetries_loop.simps) simp
    next
      case (Inl e)
      show ?thesis
      proof (cases "maxRetries cfg \<le> int a")
        case True
        with le Inl show ?thesis
          by (subst runWithRetries_wrapper_loop.simps, subst runWithRetries_loop.simps) simp
      next
        case False
        from "1.IH" [OF le Inl False refl] le Inl False show ?thesis
          by (subst runWithRetries_wrapper_loop.simps, subst runWithRetries_loop.simps) simp
      qed
    qed
  qed
qed

lemma wrapper_eq:
  "runWithRetries_wrapper cb cfg = runWithRetries cb (cfg\<lparr>stopRetries := \<lambda>e. (False, e)\<rparr>)"
  by (simp add: runWithRetries_wrapper_def runWithRetries_def wrapper_loop_eq)

text \<open>
  \<^verbatim>\<open>Task.run\<close> is the retry engine on the Task's action and policy, followed by the
  signal, as long as the success signal cannot throw.
\<close>

lemma Task_run_loop_engine:
  assumes "\<forall>v. \<exists>h'. Task_dispatchEvent L this ''taskSuccess'' (ResultCtx v) False h = Inr h'"
  shows "Task_run_loop L this ctx h a c =
         finish L this h (runWithRetries_loop (action (taskObj h this) ctx) (policy (taskObj h this)) a c)"
  using assms
proof (induction L this ctx h a c rule: Task_run_loop.induct)
  case (1 L this ctx h a c)
  let ?t = "taskObj h this"
  note ok = "1.prems"
  show ?case
  proof (cases "int a \<le> maxRetries (policy ?t)")
    case False
    then show ?thesis
      by (subst Task_run_loop.simps, subst runWithRetries_loop.simps) (simp add: finish_def)
  next
    case le: True
    show ?thesis
    proof (cases "action ?t ctx c")
      case (Inr v)
      from ok obtain h' where h': "Task_dispatchEvent L this ''taskSuccess'' (ResultCtx v) False h = Inr h'"
        by blast
      with le Inr show ?thesis
        by (subst Task_run_loop.simps, subst runWithRetries_loop.simps)
           (simp add: finish_def Task_try_def)
    next
      case (Inl e)
      then have tried: "Task_try L this ctx c h = Inl e" by (simp add: Task_try_def)
      obtain s err where se: "stopRetries (policy ?t) e = (s, err)"
        by (cases "stopRetries (policy ?t) e")
      show ?thesis
      proof (cases "s \<or> maxRetries (policy ?t) \<le> int a")
        case True
        with le Inl tried se show ?thesis
          by (subst Task_run_loop.simps, subst runWithRetries_loop.simps)
             (auto simp: finish_def Task_fail_def split: sum.splits)
      next
        case False
        then have ns: "\<not> s" and lt: "\<not> maxRetries (policy ?t) \<le> int a" by auto
        note ih = "1.IH" [OF le tried se [symmetric] ns lt refl ok]
        let ?d = "backoffDelay (interval (policy ?t)) a"
        let ?rec = "runWithRetries_loop (action ?t ctx) (policy ?t) (a + 1) (c + 1)"
        have lhs: "Task_run_loop L this ctx h a c =
            (case Task_run_loop L this ctx h (a + 1) (c + 1) of
               (r, h', tr) \<Rightarrow> (r, h', Invoke # Sleep ?d # tr))"
          using le tried se ns lt by (subst Task_run_loop.simps) simp
        have rhs: "runWithRetries_loop (action ?t ctx) (policy ?t) a c =
            (case ?rec of (r, tr) \<Rightarrow> (r, Invoke # Sleep ?d # tr))"
          using le Inl se ns lt by (subst runWithRetries_loop.simps) simp
        obtain r tr where rec: "?rec = (r, tr)" by (cases ?rec)
        show ?thesis
          unfolding lhs rhs ih rec
          by (simp add: finish_def split: option.splits result.splits sum.splits)
      qed
    qed
  qed
qed

lemma Task_run_engine:
  assumes "\<forall>v. \<exists>h'. Task_dispatchEvent L this ''taskSuccess'' (ResultCtx v) False h = Inr h'"
  shows "Task_run L this ctx h =
         finish L this h (runWithRetries (action (taskObj h this) ctx) (policy (taskObj h this)))"
  using Task_run_loop_engine [OF assms] by (simp add: Task_run_def runWithRetries_def)

lemma dispatch_attached:
  "chainRef (taskObj h this) = Some c \<Longrightarrow>
   Task_dispatchEvent L this event p d h =
     Inr (if decision L this event p d then breakChain c True h else h)"
  by (simp add: Task_dispatchEvent_def)

lemma Task_run_attached:
  assumes "chainRef (taskObj h this) = Some c"
  shows "Task_run L this ctx h =
         finish L this h (runWithRetries (action (taskObj h this) ctx) (policy (taskObj h this)))"
  by (rule Task_run_engine) (simp add: dispatch_attached [OF assms])

text \<open>The trace of \<^verbatim>\<open>Task.run\<close> has the backoff shape whatever the listeners do.\<close>

lemma Task_fail_trace: "snd (snd (Task_fail L this e h)) = [Invoke]"
  by (simp add: Task_fail_def split: sum.splits)

lemma Task_loop_trace:
  "int a \<le> maxRetries (policy (taskObj h this)) \<Longrightarrow>
   \<exists>m. a \<le> m \<and> int m \<le> maxRetries (policy (taskObj h this)) \<and>
       snd (snd (Task_run_loop L this ctx h a c)) =
         backoff (interval (policy (taskObj h this))) a m @ [Invoke]"
proof (induction L this ctx h a c rule: Task_run_loop.induct)
  case (1 L this ctx h a c)
  let ?p = "policy (taskObj h this)"
  note le = "1.prems"
  show ?case
  proof (cases "Task_try L this ctx c h")
    case (Inr x)
    with le have "snd (snd (Task_run_loop L this ctx h a c)) = backoff (interval ?p) a a @ [Invoke]"
      by (subst Task_run_loop.simps) (simp add: split_beta)
    with le show ?thesis by blast
  next
    case (Inl e)
    obtain s err where se: "stopRetries ?p e = (s, err)" by (cases "stopRetries ?p e")
    show ?thesis
    proof (cases "s \<or> maxRetries ?p \<le> int a")
      case True
      with Inl se le have "snd (snd (Task_run_loop L this ctx h a c)) = backoff (interval ?p) a a @ [Invoke]"
        by (subst Task_run_loop.simps) (auto simp: Task_fail_trace)
      with le show ?thesis by blast
    next
      case False
      then have ns: "\<not> s" and lt: "\<not> maxRetries ?p \<le> int a" by auto
      have "int (a + 1) \<le> maxRetries ?p" using lt by simp
      from "1.IH" [OF le Inl se [symmetric] ns lt refl this]
      obtain m where m: "a + 1 \<le> m" "int m \<le> maxRetries ?p"
        "snd (snd (Task_run_loop L this ctx h (a + 1) (c + 1))) = backoff (interval ?p) (a + 1) m @ [Invoke]"
        by blast
      have "snd (snd (Task_run_loop L this ctx h a c)) =
          Invoke # Sleep (backoffDelay (interval ?p) a) # snd (snd (Task_run_loop L this ctx h (a + 1) (c + 1)))"
        using Inl se ns lt le by (subst Task_run_loop.simps) (simp add: split_beta)
      also have "\<dots> = backoff (interval ?p) a m @ [Invoke]"
        using m by (simp add: backoff_step [of a m])
      finally show ?thesis using m by (intro exI [of _ m]) simp
    qed
  qed
qed

text \<open>More on the shape of traces, and the value of a delay.\<close>

lemma backoff_append:
  "a \<le> b \<Longrightarrow> b \<le> c \<Longrightarrow> backoff iv a b @ backoff iv b c = backoff iv a c"
proof -
  assume "a \<le> b" "b \<le> c"
  then have "[a..<c] = [a..<b] @ [b..<c]"
    by (metis le_Suc_ex upt_add_eq_append)
  then show ?thesis by (simp add: backoff_def)
qed

lemma backoff_member:
  "a \<le> i \<Longrightarrow> i < m \<Longrightarrow> Sleep (backoffDelay iv i) \<in> set (backoff iv a m)"
  by (auto simp: backoff_def)

lemma backoff_nth:
  "a \<le> i \<Longrightarrow> i < m \<Longrightarrow> (backoff iv a m @ rest) ! (2 * (i - a) + 1) = Sleep (backoffDelay iv i)"
proof (induction "i - a" arbitrary: a)
  case 0
  then have "a = i" by simp
  with 0 show ?case by (simp add: backoff_step)
next
  case (Suc d)
  then have lt: "a < i" "a < m" by simp_all
  from Suc have "(backoff iv (Suc a) m @ rest) ! (2 * (i - Suc a) + 1) = Sleep (backoffDelay iv i)"
    by simp
  moreover have "2 * (i - a) + 1 = Suc (Suc (2 * (i - Suc a) + 1))"
    using lt by simp
  ultimately show ?case using lt by (simp add: backoff_step)
qed

lemma backoffDelay_exact:
  "i - 1 < 1024 \<Longrightarrow> \<bar>iv * 2 ^ (i - 1)\<bar> < 2 ^ 1024 \<Longrightarrow> backoffDelay iv i = Finite (iv * 2 ^ (i - 1))"
  by (simp add: backoffDelay_def power_of_two_def)

lemma backoffDelay_overflow:
  assumes "0 < iv" "2 ^ 1024 \<le> iv * 2 ^ (i - 1)"
  shows "backoffDelay iv i = PosInfinity"
proof (cases "i - 1 < 1024")
  case True
  have "0 < iv * 2 ^ (i - 1)" using assms(1) by simp
  with True assms show ?thesis
    by (simp add: backoffDelay_def power_of_two_def)
next
  case False
  with assms show ?thesis by (simp add: backoffDelay_def power_of_two_def)
qed

text \<open>A run whose first \<open>j\<close> attempts fail and are retried makes more than \<open>j\<close> attempts.\<close>

lemma run_trace_after:
  assumes "\<forall>i<j. \<exists>e. cb i = Inl e \<and> \<not> fst (stopRetries cfg e)" "int j < maxRetries cfg"
  shows "\<exists>m. j < m \<and> int m \<le> maxRetries cfg \<and>
           snd (runWithRetries cb cfg) = backoff (interval cfg) 1 m @ [Invoke]"
proof -
  have b: "int (1 + j) \<le> maxRetries cfg" using assms(2) by simp
  have sk: "runWithRetries_loop cb cfg 1 0 =
      (fst (runWithRetries_loop cb cfg (1 + j) (0 + j)),
       backoff (interval cfg) 1 (1 + j) @ snd (runWithRetries_loop cb cfg (1 + j) (0 + j)))"
    using assms(1) b by (intro loop_skip) auto
  from loop_trace [OF b, of cb j] obtain m where
    m: "1 + j \<le> m" "int m \<le> maxRetries cfg"
      "snd (runWithRetries_loop cb cfg (1 + j) j) = backoff (interval cfg) (1 + j) m @ [Invoke]"
    by blast
  have "snd (runWithRetries cb cfg) = backoff (interval cfg) 1 (1 + j) @ backoff (interval cfg) (1 + j) m @ [Invoke]"
    using sk m(3) by (simp add: runWithRetries_def)
  also have "\<dots> = backoff (interval cfg) 1 m @ [Invoke]"
    using backoff_append [of 1 "1 + j" m "interval cfg"] m(1) by simp
  finally show ?thesis using m by (intro exI [of _ m]) simp
qed

lemma Task_loop_skip:
  assumes "\<forall>i<j. \<exists>e. action (taskObj h this) ctx (c + i) = Inl e \<and>
             \<not> fst (stopRetries (policy (taskObj h this)) e)"
    and "int (a + j) \<le> maxRetries (policy (taskObj h this))"
  shows "snd (snd (Task_run_loop L this ctx h a c)) =
     backoff (interval (policy (taskObj h this))) a (a + j) @
     snd (snd (Task_run_loop L this ctx h (a + j) (c + j)))"
  using assms
proof (induction j arbitrary: a c)
  case 0
  then show ?case by simp
next
  case (Suc j)
  let ?p = "policy (taskObj h this)"
  from Suc.prems(1) obtain e where e: "action (taskObj h this) ctx c = Inl e" "\<not> fst (stopRetries ?p e)"
    by force
  then have tried: "Task_try L this ctx c h = Inl e" by (simp add: Task_try_def)
  have rest: "\<forall>i<j. \<exists>e. action (taskObj h this) ctx (Suc c + i) = Inl e \<and> \<not> fst (stopRetries ?p e)"
    using Suc.prems(1) by (metis Suc_less_eq add_Suc_shift)
  have bound: "int (Suc a + j) \<le> maxRetries ?p" using Suc.prems(2) by simp
  note ih = Suc.IH [OF rest bound]
  have lt: "int a < maxRetries ?p" using Suc.prems(2) by simp
  have "snd (snd (Task_run_loop L this ctx h a c)) =
      Invoke # Sleep (backoffDelay (interval ?p) a) # snd (snd (Task_run_loop L this ctx h (Suc a) (Suc c)))"
    using e tried lt by (subst Task_run_loop.simps) (simp add: split_beta)
  also have "\<dots> = backoff (interval ?p) a (a + Suc j) @
      snd (snd (Task_run_loop L this ctx h (a + Suc j) (c + Suc j)))"
    by (subst ih) (simp add: backoff_step [of a "Suc (a + j)"])
  finally show ?case .
qed

lemma Task_trace_after:
  assumes "\<forall>i<j. \<exists>e. action (taskObj h this) ctx i = Inl e \<and>
             \<not> fst (stopRetries (policy (taskObj h this)) e)"
    and "int j < maxRetries (policy (taskObj h this))"
  shows "\<exists>m. j < m \<and> int m \<le> maxRetries (policy (taskObj h this)) \<and>
           snd (snd (Task_run L this ctx h)) =
             backoff (interval (policy (taskObj h this))) 1 m @ [Invoke]"
proof -
  let ?p = "policy (taskObj h this)"
  have b: "int (1 + j) \<le> maxRetries ?p" using assms(2) by simp
  have sk: "snd (snd (Task_run_loop L this ctx h 1 0)) =
      backoff (interval ?p) 1 (1 + j) @ snd (snd (Task_run_loop L this ctx h (1 + j) (0 + j)))"
    using assms(1) b by (intro Task_loop_skip) auto
  from Task_loop_trace [OF b, of L ctx j] obtain m where
    m: "1 + j \<le> m" "int m \<le> maxRetries ?p"
      "snd (snd (Task_run_loop L this ctx h (1 + j) j)) = backoff (interval ?p) (1 + j) m @ [Invoke]"
    by blast
  have "snd (snd (Task_run L this ctx h)) =
      backoff (interval ?p) 1 (1 + j) @ backoff (interval ?p) (1 + j) m @ [Invoke]"
    using sk m(3) by (simp add: Task_run_def)
  also have "\<dots> = backoff (interval ?p) 1 m @ [Invoke]"
    using backoff_append [of 1 "1 + j" m "interval ?p"] m(1) by simp
  finally show ?thesis using m by (intro exI [of _ m]) simp
qed

section \<open>Lemmas on Task and TaskChain\<close>

lemma loop_result_some:
  "int a \<le> maxRetries cfg \<Longrightarrow> \<exists>r. fst (runWithRetries_loop cb cfg a c) = Some r"
proof (induction cb cfg a c rule: runWithRetries_loop.induct)
  case (1 cb cfg a c)
  show ?case
  proof (cases "cb c")
    case (Inr v)
    with "1.prems" show ?thesis by (simp add: loop_success)
  next
    case (Inl e)
    obtain s err where se: "stopRetries cfg e = (s, err)" by (cases "stopRetries cfg e")
    show ?thesis
    proof (cases "s \<or> maxRetries cfg \<le> int a")
      case True
      with Inl se "1.prems" show ?thesis
        by (subst runWithRetries_loop.simps) auto
    next
      case False
      then have ns: "\<not> s" and lt: "\<not> maxRetries cfg \<le> int a" by auto
      have "int (a + 1) \<le> maxRetries cfg" using lt by simp
      from "1.IH" [OF "1.prems" Inl se [symmetric] ns lt refl this]
      obtain r where "fst (runWithRetries_loop cb cfg (a + 1) (c + 1)) = Some r" by blast
      then show ?thesis
        using Inl se ns lt "1.prems" by (subst runWithRetries_loop.simps) (simp add: split_beta)
    qed
  qed
qed

text \<open>Listener calls that repeat the default leave the decision at the default.\<close>

lemma foldl_detail_breakChain_default:
  "\<forall>v\<in>set vs. v = d \<Longrightarrow> foldl detail_breakChain d vs = d"
  by (induction vs) (simp_all add: detail_breakChain_def)

lemma decision_default:
  "\<forall>v\<in>set (L \<lparr>ev_type = event, ev_task = this, ev_context = p\<rparr>). v = d \<Longrightarrow>
   decision L this event p d = d"
  by (simp add: decision_def foldl_detail_breakChain_default)

lemma stopChain_breakChain [simp]: "stopChain (chainObj (breakChain c v h) c) = Some v"
  by (simp add: breakChain_def)

lemma taskObj_breakChain [simp]: "taskObj (breakChain c v h) = taskObj h"
  by (simp add: breakChain_def)

lemma chain_breakChain [simp]: "chain (chainObj (breakChain c v h) k) = chain (chainObj h k)"
  by (simp add: breakChain_def)

text \<open>\<^verbatim>\<open>Task.run\<close> on an attached Task, by the result of the retry engine.\<close>

lemma Task_run_attached_cases:
  fixes h :: heap and this :: nat and ctx :: executionContext
  assumes att: "chainRef (taskObj h this) = Some c"
  defines "x \<equiv> runWithRetries (action (taskObj h this) ctx) (policy (taskObj h this))"
  shows "Task_run L this ctx h =
     (case fst x of
        None \<Rightarrow> (Return None, h, snd x)
      | Some (Success v) \<Rightarrow>
          (Return (Some (True, Inr v)),
           if decision L this ''taskSuccess'' (ResultCtx v) False then breakChain c True h else h,
           snd x)
      | Some (Failure e) \<Rightarrow>
          (Return (Some (False, Inl e)),
           if decision L this ''taskError'' (ErrorCtx e) True then breakChain c True h else h,
           snd x))"
  unfolding x_def Task_run_attached [OF att]
  by (simp add: finish_def dispatch_attached [OF att] split_beta split: option.splits result.splits)

text \<open>\<^verbatim>\<open>Task.run\<close> on a detached Task whose success signal is not overridden.\<close>

lemma dispatch_detached:
  "chainRef (taskObj h this) = None \<Longrightarrow>
   Task_dispatchEvent L this event p d h =
     (if decision L this event p d then Inl TypeError else Inr h)"
  by (simp add: Task_dispatchEvent_def)

lemma Task_run_detached_cases:
  fixes h :: heap and this :: nat and ctx :: executionContext
  assumes det: "chainRef (taskObj h this) = None"
    and quiet: "\<forall>v. \<not> decision L this ''taskSuccess'' (ResultCtx v) False"
  defines "x \<equiv> runWithRetries (action (taskObj h this) ctx) (policy (taskObj h this))"
  shows "Task_run L this ctx h =
     (case fst x of
        None \<Rightarrow> (Return None, h, snd x)
      | Some (Success v) \<Rightarrow> (Return (Some (True, Inr v)), h, snd x)
      | Some (Failure e) \<Rightarrow>
          (if decision L this ''taskError'' (ErrorCtx e) True then (Throw TypeError, h, snd x)
           else (Return (Some (False, Inl e)), h, snd x)))"
proof -
  have "Task_run L this ctx h =
      finish L this h (runWithRetries (action (taskObj h this) ctx) (policy (taskObj h this)))"
    by (rule Task_run_engine) (simp add: dispatch_detached [OF det] quiet)
  then show ?thesis
    unfolding x_def
    by (simp add: finish_def dispatch_detached [OF det] quiet split_beta
        split: option.splits result.splits)
qed

text \<open>The chain operations on a Task argument.\<close>

lemma validateTask_never [simp]: "validateTask v = None"
  by (simp add: validateTask_def not_js_def)


lemma labelOf_set_chain [simp]: "labelOf (set_chain c xs h) v = labelOf h v"
  by (cases v) (simp_all add: set_chain_def)

lemma taskObj_set_chain [simp]: "taskObj (set_chain c xs h) = taskObj h"
  by (simp add: set_chain_def)

lemma chain_set_chain [simp]: "chain (chainObj (set_chain c xs h) c) = xs"
  by (simp add: set_chain_def)

lemma attach_TaskRef:
  "attach (TaskRef r) c h =
     (Return (), h\<lparr>taskObj := (taskObj h)(r := (taskObj h r)\<lparr>chainRef := c\<rparr>)\<rparr>)"
  by (simp add: attach_def)

lemma labelOf_chainRef [simp]:
  "labelOf (g\<lparr>taskObj := (taskObj h)(r := (taskObj h r)\<lparr>chainRef := c\<rparr>)\<rparr>) v = labelOf h v"
  by (cases v) simp_all

lemma distinct_insert_middle:
  "distinct (ys @ x # zs) \<longleftrightarrow> distinct (ys @ zs) \<and> x \<notin> set (ys @ zs)"
  by auto

lemma distinct_splice_insert:
  "distinct (take i xs @ x # drop i xs) \<longleftrightarrow> distinct xs \<and> x \<notin> set xs"
  using distinct_insert_middle [of "take i xs" x "drop i xs"]
  by (simp only: append_take_drop_id)

lemma distinct_snoc: "distinct (xs @ [x]) \<longleftrightarrow> distinct xs \<and> x \<notin> set xs"
  by auto

lemma addTask_TaskRef:
  "fst (addTask this (TaskRef r) h) = Return ()"
  "chain (chainObj (snd (addTask this (TaskRef r) h)) this) = chain (chainObj h this) @ [TaskRef r]"
  "labels (snd (addTask this (TaskRef r) h)) this = labels h this @ [label (taskObj h r)]"
  "chainRef (taskObj (snd (addTask this (TaskRef r) h)) r) = Some this"
  by (simp_all add: addTask_def attach_TaskRef labels_def)

lemma insertBeforeTask_TaskRef:
  assumes "validateLabel l = None" "findByLabel h this l = Inr idx"
  shows "fst (insertBeforeTask this (TaskRef r) l h) = Return ()"
    "chain (chainObj (snd (insertBeforeTask this (TaskRef r) l h)) this) =
       take idx (chain (chainObj h this)) @ TaskRef r # drop idx (chain (chainObj h this))"
    "labels (snd (insertBeforeTask this (TaskRef r) l h)) this =
       take idx (labels h this) @ label (taskObj h r) # drop idx (labels h this)"
  using assms
  by (simp_all add: insertBeforeTask_def attach_TaskRef labels_def splice_insert_def take_map drop_map)

lemma insertAfterTask_TaskRef:
  assumes "validateLabel l = None" "findByLabel h this l = Inr idx"
  shows "fst (insertAfterTask this (TaskRef r) l h) = Return ()"
    "chain (chainObj (snd (insertAfterTask this (TaskRef r) l h)) this) =
       take (idx + 1) (chain (chainObj h this)) @ TaskRef r # drop (idx + 1) (chain (chainObj h this))"
    "labels (snd (insertAfterTask this (TaskRef r) l h)) this =
       take (idx + 1) (labels h this) @ label (taskObj h r) # drop (idx + 1) (labels h this)"
  using assms
  by (simp_all add: insertAfterTask_def attach_TaskRef labels_def splice_insert_def take_map drop_map)

text \<open>\<^verbatim>\<open>Task.run\<close> writes nothing but abort flags.\<close>

lemma same_structure_refl [simp]: "same_structure h h"
  by (simp add: same_structure_def)

lemma same_structure_breakChain [simp]: "same_structure h (breakChain c v h)"
  by (simp add: same_structure_def)
























text \<open>The example Tasks are values that the constructor accepts.\<close>

lemma newTask_mkTask:
  "l \<noteq> [] \<Longrightarrow> \<not> list_ex whitespace l \<Longrightarrow> newTask l (\<lambda>ctx. f) noConfig = Inr (mkTask l f)"
  by (simp add: newTask_def Task_validateInputs_def isEmptyOrNull_def policy_def configPolicy_def noConfig_def
      mkTask_def)

section \<open>Lemmas on the request builder\<close>

lemma properties_frame:
  "allocated \<sigma> v \<Longrightarrow> \<forall>a<fresh \<sigma>. objects \<sigma>' a = objects \<sigma> a \<Longrightarrow>
   properties \<sigma>' v = properties \<sigma> v"
  by (cases v) simp_all

lemma allocated_mono: "allocated \<sigma> v \<Longrightarrow> fresh \<sigma> \<le> fresh \<sigma>' \<Longrightarrow> allocated \<sigma>' v"
  by (cases v) simp_all

text \<open>A call that copies the policy into a new object with one property set.\<close>

lemma derived_policy:
  assumes wf: "wf_builder \<sigma> b"
    and res: "res = (case alloc ((properties \<sigma> (retryConfigVal b))(k \<mapsto> v)) \<sigma> of
                (a, \<sigma>') \<Rightarrow> (Return (buildRequest (stateRef b) (JObject a)), \<sigma>'))"
  shows "derived res \<sigma> b (descriptor \<sigma> b) ((retryPolicy \<sigma> b)(k \<mapsto> v))"
proof -
  let ?a = "fresh \<sigma>"
  let ?obj = "(properties \<sigma> (retryConfigVal b))(k \<mapsto> v)"
  let ?\<sigma>' = "\<sigma>\<lparr>objects := (objects \<sigma>)(?a := ?obj), fresh := Suc ?a\<rparr>"
  let ?b' = "buildRequest (stateRef b) (JObject ?a)"
  have r: "res = (Return ?b', ?\<sigma>')" by (simp add: res alloc_def)
  from wf have st: "stateRef b < ?a" and al: "allocated \<sigma> (retryConfigVal b)"
    by (simp_all add: wf_builder_def)
  have frame: "\<forall>a<fresh \<sigma>. objects ?\<sigma>' a = objects \<sigma> a" by simp
  have pol: "properties ?\<sigma>' (retryConfigVal b) = properties \<sigma> (retryConfigVal b)"
    by (rule properties_frame [OF al frame])
  have ne: "?b' \<noteq> b"
  proof
    assume "?b' = b"
    then have "retryConfigVal b = JObject ?a" by (simp add: buildRequest_def) (metis requestBuilder.select_convs(2))
    with al show False by simp
  qed
  show ?thesis
    unfolding derived_def r
    using st pol ne
    by (simp add: descriptor_def retryPolicy_def wf_builder_def buildRequest_def)
qed

lemma derived_state:
  assumes wf: "wf_builder \<sigma> b"
    and res: "res = (case alloc ((objects \<sigma> (stateRef b))(k \<mapsto> v)) \<sigma> of
                (a, \<sigma>') \<Rightarrow> (Return (buildRequest a (retryConfigVal b)), \<sigma>'))"
  shows "derived res \<sigma> b ((descriptor \<sigma> b)(k \<mapsto> v)) (retryPolicy \<sigma> b)"
proof -
  let ?a = "fresh \<sigma>"
  let ?obj = "(objects \<sigma> (stateRef b))(k \<mapsto> v)"
  let ?\<sigma>' = "\<sigma>\<lparr>objects := (objects \<sigma>)(?a := ?obj), fresh := Suc ?a\<rparr>"
  let ?b' = "buildRequest ?a (retryConfigVal b)"
  have r: "res = (Return ?b', ?\<sigma>')" by (simp add: res alloc_def)
  from wf have st: "stateRef b < ?a" and al: "allocated \<sigma> (retryConfigVal b)"
    by (simp_all add: wf_builder_def)
  have frame: "\<forall>a<fresh \<sigma>. objects ?\<sigma>' a = objects \<sigma> a" by simp
  have pol: "properties ?\<sigma>' (retryConfigVal b) = properties \<sigma> (retryConfigVal b)"
    by (rule properties_frame [OF al frame])
  have al': "allocated ?\<sigma>' (retryConfigVal b)"
    by (rule allocated_mono [OF al]) simp
  have ne: "?b' \<noteq> b"
  proof
    assume "?b' = b"
    then have "stateRef b = ?a" by (simp add: buildRequest_def) (metis requestBuilder.select_convs(1))
    with st show False by simp
  qed
  show ?thesis
    unfolding derived_def r
    using st pol ne al'
    by (simp add: descriptor_def retryPolicy_def wf_builder_def buildRequest_def)
qed

lemma wf_createRequest:
  "wf_builder (snd (createRequest q o' \<sigma>)) (fst (createRequest q o' \<sigma>))"
  by (simp add: createRequest_def alloc_def wf_builder_def buildRequest_def)

lemma frame_builder:
  assumes "wf_builder \<sigma> b0" "\<forall>a<fresh \<sigma>. objects \<sigma>' a = objects \<sigma> a" "fresh \<sigma> \<le> fresh \<sigma>'"
  shows "wf_builder \<sigma>' b0 \<and> descriptor \<sigma>' b0 = descriptor \<sigma> b0 \<and>
         retryPolicy \<sigma>' b0 = retryPolicy \<sigma> b0"
  using assms
  by (auto simp: wf_builder_def descriptor_def retryPolicy_def
      intro: allocated_mono properties_frame)

lemma template_reuse:
  assumes wf: "wf_builder \<sigma> b" and v: "typeof v = ''number''" and w: "typeof w = ''number''"
  shows "\<exists>b1 b2.
     fst (withRetries b v \<sigma>) = Return b1 \<and>
     fst (withInterval b w (snd (withRetries b v \<sigma>))) = Return b2 \<and>
     retryPolicy (snd (withInterval b w (snd (withRetries b v \<sigma>)))) b1 =
       (retryPolicy \<sigma> b)(''maxRetries'' \<mapsto> v) \<and>
     retryPolicy (snd (withInterval b w (snd (withRetries b v \<sigma>)))) b2 =
       (retryPolicy \<sigma> b)(''interval'' \<mapsto> w) \<and>
     retryPolicy (snd (withInterval b w (snd (withRetries b v \<sigma>)))) b = retryPolicy \<sigma> b \<and>
     descriptor (snd (withInterval b w (snd (withRetries b v \<sigma>)))) b = descriptor \<sigma> b"
proof -
  let ?\<sigma>1 = "snd (withRetries b v \<sigma>)"
  let ?\<sigma>2 = "snd (withInterval b w ?\<sigma>1)"
  have d1: "derived (withRetries b v \<sigma>) \<sigma> b (descriptor \<sigma> b) ((retryPolicy \<sigma> b)(''maxRetries'' \<mapsto> v))"
    by (rule derived_policy [OF wf]) (simp add: withRetries_def v)
  then obtain b1 where b1: "fst (withRetries b v \<sigma>) = Return b1" "wf_builder ?\<sigma>1 b1"
      "retryPolicy ?\<sigma>1 b1 = (retryPolicy \<sigma> b)(''maxRetries'' \<mapsto> v)"
    and f1: "\<forall>a<fresh \<sigma>. objects ?\<sigma>1 a = objects \<sigma> a" "fresh \<sigma> \<le> fresh ?\<sigma>1"
    by (auto simp: derived_def)
  from frame_builder [OF wf f1] have wf1: "wf_builder ?\<sigma>1 b"
    and k1: "descriptor ?\<sigma>1 b = descriptor \<sigma> b" "retryPolicy ?\<sigma>1 b = retryPolicy \<sigma> b"
    by simp_all
  have d2: "derived (withInterval b w ?\<sigma>1) ?\<sigma>1 b (descriptor ?\<sigma>1 b)
      ((retryPolicy ?\<sigma>1 b)(''interval'' \<mapsto> w))"
    by (rule derived_policy [OF wf1]) (simp add: withInterval_def w)
  then obtain b2 where b2: "fst (withInterval b w ?\<sigma>1) = Return b2"
      "retryPolicy ?\<sigma>2 b2 = (retryPolicy ?\<sigma>1 b)(''interval'' \<mapsto> w)"
    and f2: "\<forall>a<fresh ?\<sigma>1. objects ?\<sigma>2 a = objects ?\<sigma>1 a" "fresh ?\<sigma>1 \<le> fresh ?\<sigma>2"
    by (auto simp: derived_def)
  from frame_builder [OF b1(2) f2] have "retryPolicy ?\<sigma>2 b1 = retryPolicy ?\<sigma>1 b1" by simp
  moreover from frame_builder [OF wf1 f2]
  have "retryPolicy ?\<sigma>2 b = retryPolicy ?\<sigma>1 b" "descriptor ?\<sigma>2 b = descriptor ?\<sigma>1 b"
    by simp_all
  ultimately show ?thesis
    using b1 b2 k1 by (intro exI [of _ b1] exI [of _ b2]) simp
qed

section \<open>Claims on the retry engine\<close>

text \<open>
  C4, as stated, fails on the engine of \<^verbatim>\<open>src/octokit-wrapper.js\<close>, which never reads a
  stop predicate.  The predicate of \<open>defaultPolicy\<close> signals "stop" on the first failure
  of an operation that always fails with status 404; that engine invokes the operation
  three times all the same and returns the synthesized error.
\<close>

theorem wrapper_engine_ignores_stop_predicate:
  "maxRetries defaultPolicy = 3 \<and>
   alwaysNotFound 0 = Inl (RequestError 404 ''Not Found'') \<and>
   stopRetries defaultPolicy (RequestError 404 ''Not Found'') =
     (True, RequestError 404 ''Not Found'') \<and>
   fst (runWithRetries_wrapper alwaysNotFound defaultPolicy) =
     Some (Failure (Error ''Request failed after 3 attempts'')) \<and>
   invocations (snd (runWithRetries_wrapper alwaysNotFound defaultPolicy)) = 3"
  by code_simp

text \<open>
  C4, amended.  In the engine of \<^verbatim>\<open>src/unnamed/part_000\<close>, which takes a stop predicate:
  for a policy with \<open>maxRetries = n \<ge> 1\<close> and an operation whose failures make the
  predicate signal "stop" for the first time at attempt \<open>k \<le> n\<close>, the engine invokes the
  operation exactly \<open>k\<close> times and returns the failure that wraps the error chosen by the
  predicate, whatever budget remains.  The engine of \<^verbatim>\<open>src/octokit-wrapper.js\<close> has no
  stop predicate: its result and its trace do not depend on the \<^verbatim>\<open>stopRetries\<close> field of
  the policy, and an operation that fails at each of its first \<open>n\<close> invocations is
  invoked \<open>n\<close> times.
\<close>

theorem stop_predicate_ends_at_attempt_k:
  "(1 \<le> k \<and> int k \<le> maxRetries cfg \<and>
      (\<forall>i<k - 1. \<exists>e. callback i = Inl e \<and> \<not> fst (stopRetries cfg e)) \<and>
      callback (k - 1) = Inl e \<and> stopRetries cfg e = (True, err) \<longrightarrow>
      fst (runWithRetries callback cfg) = Some (Failure err) \<and>
      invocations (snd (runWithRetries callback cfg)) = k) \<and>
   runWithRetries_wrapper callback (cfg\<lparr>stopRetries := f\<rparr>) = runWithRetries_wrapper callback cfg \<and>
   (1 \<le> n \<and> maxRetries cfg = int n \<and> (\<forall>i<n. \<exists>e. callback i = Inl e) \<longrightarrow>
      fst (runWithRetries_wrapper callback cfg) =
        Some (Failure (Error (''Request failed after '' @ toString (int n) @ '' attempts''))) \<and>
      invocations (snd (runWithRetries_wrapper callback cfg)) = n)"
proof -
  let ?never = "cfg\<lparr>stopRetries := \<lambda>e. (False, e)\<rparr>"
  have a: "fst (runWithRetries callback cfg) = Some (Failure err) \<and>
           invocations (snd (runWithRetries callback cfg)) = k"
    if "1 \<le> k" "int k \<le> maxRetries cfg"
       "\<forall>i<k - 1. \<exists>e. callback i = Inl e \<and> \<not> fst (stopRetries cfg e)"
       "callback (k - 1) = Inl e" "stopRetries cfg e = (True, err)"
    using run_stop [OF that] that(1) by (simp add: invocations_backoff)
  have b: "runWithRetries_wrapper callback (cfg\<lparr>stopRetries := f\<rparr>) = runWithRetries_wrapper callback cfg"
    by (simp add: wrapper_eq)
  have c: "fst (runWithRetries_wrapper callback cfg) = Some (Failure (exhausted (int n))) \<and>
           invocations (snd (runWithRetries_wrapper callback cfg)) = n"
    if "1 \<le> n" "maxRetries cfg = int n" "\<forall>i<n. \<exists>e. callback i = Inl e"
    using run_exhausted [of n ?never callback] that
    by (simp add: wrapper_eq invocations_backoff)
  show ?thesis
    unfolding exhausted_def [symmetric]
    apply (intro conjI)
    subgoal using a by blast
    subgoal by (rule b)
    subgoal using c by blast
    done
qed

theorem stop_predicate_ends_at_attempt_k_witness:
  "(1::nat) \<le> 2 \<and> int 2 \<le> maxRetries defaultPolicy \<and>
   notFoundSecond 0 = Inl (RequestError 500 ''Server Error'') \<and>
   \<not> fst (stopRetries defaultPolicy (RequestError 500 ''Server Error'')) \<and>
   notFoundSecond 1 = Inl (RequestError 404 ''Not Found'') \<and>
   stopRetries defaultPolicy (RequestError 404 ''Not Found'') = (True, RequestError 404 ''Not Found'') \<and>
   fst (runWithRetries notFoundSecond defaultPolicy) = Some (Failure (RequestError 404 ''Not Found'')) \<and>
   invocations (snd (runWithRetries notFoundSecond defaultPolicy)) = 2 \<and>
   runWithRetries_wrapper notFoundSecond (defaultPolicy\<lparr>stopRetries := \<lambda>e. (True, e)\<rparr>) =
     runWithRetries_wrapper notFoundSecond defaultPolicy \<and>
   fst (runWithRetries_wrapper notFoundSecond defaultPolicy) =
     Some (Failure (Error ''Request failed after 3 attempts'')) \<and>
   invocations (snd (runWithRetries_wrapper notFoundSecond defaultPolicy)) = 3"
proof -
  have ts: "toString 3 = ''3''"
    by code_simp
  show ?thesis
    using stop_predicate_ends_at_attempt_k
      [of 2 defaultPolicy notFoundSecond "RequestError 404 ''Not Found''"
          "RequestError 404 ''Not Found''" "\<lambda>e. (True, e)" 3]
    by (simp add: defaultPolicy_def notFoundSecond_def ts)
qed

text \<open>
  C5.  With \<open>maxRetries = n \<ge> 1\<close>, an operation that fails at each of its first \<open>n\<close>
  invocations, under a stop predicate that does not signal "stop" on these failures, is
  invoked exactly \<open>n\<close> times, and the result is the failure whose message is
  \<^verbatim>\<open>Request failed after n attempts\<close>.  An operation that first succeeds at attempt
  \<open>j \<le> n\<close> gives \<open>Success\<close> with exactly \<open>j\<close> invocations: none after the success.  This
  holds of the engine with a stop predicate, of the engine of \<^verbatim>\<open>src/octokit-wrapper.js\<close>
  (which has none), and of \<^verbatim>\<open>Task.run\<close> on a Task attached to a chain, whose result is
  the pair \<^verbatim>\<open>[false, error]\<close> or \<^verbatim>\<open>[true, result]\<close>.
\<close>

theorem retries_exhausted_or_first_success:
  assumes "1 \<le> n" and "maxRetries cfg = int n"
  shows
    "((\<forall>i<n. \<exists>e. callback i = Inl e \<and> \<not> fst (stopRetries cfg e)) \<longrightarrow>
        fst (runWithRetries callback cfg) =
          Some (Failure (Error (''Request failed after '' @ toString (int n) @ '' attempts''))) \<and>
        invocations (snd (runWithRetries callback cfg)) = n) \<and>
     ((\<forall>i<n. \<exists>e. callback i = Inl e) \<longrightarrow>
        fst (runWithRetries_wrapper callback cfg) =
          Some (Failure (Error (''Request failed after '' @ toString (int n) @ '' attempts''))) \<and>
        invocations (snd (runWithRetries_wrapper callback cfg)) = n) \<and>
     (1 \<le> j \<and> j \<le> n \<and> callback (j - 1) = Inr v \<and>
        (\<forall>i<j - 1. \<exists>e. callback i = Inl e \<and> \<not> fst (stopRetries cfg e)) \<longrightarrow>
        fst (runWithRetries callback cfg) = Some (Success v) \<and>
        invocations (snd (runWithRetries callback cfg)) = j) \<and>
     (1 \<le> j \<and> j \<le> n \<and> callback (j - 1) = Inr v \<and>
        (\<forall>i<j - 1. \<exists>e. callback i = Inl e) \<longrightarrow>
        fst (runWithRetries_wrapper callback cfg) = Some (Success v) \<and>
        invocations (snd (runWithRetries_wrapper callback cfg)) = j) \<and>
     (chainRef (taskObj h this) = Some c \<and> policy (taskObj h this) = cfg \<and>
        action (taskObj h this) ctx = callback \<longrightarrow>
        ((\<forall>i<n. \<exists>e. callback i = Inl e \<and> \<not> fst (stopRetries cfg e)) \<longrightarrow>
           fst (Task_run L this ctx h) =
             Return (Some (False, Inl (Error (''Request failed after '' @ toString (int n) @ '' attempts'')))) \<and>
           invocations (snd (snd (Task_run L this ctx h))) = n) \<and>
        (1 \<le> j \<and> j \<le> n \<and> callback (j - 1) = Inr v \<and>
           (\<forall>i<j - 1. \<exists>e. callback i = Inl e \<and> \<not> fst (stopRetries cfg e)) \<longrightarrow>
           fst (Task_run L this ctx h) = Return (Some (True, Inr v)) \<and>
           invocations (snd (snd (Task_run L this ctx h))) = j))"
proof -
  let ?never = "cfg\<lparr>stopRetries := \<lambda>e. (False, e)\<rparr>"
  have never: "maxRetries ?never = int n" "interval ?never = interval cfg"
    using assms by simp_all
  have a: "fst (runWithRetries callback cfg) = Some (Failure (exhausted (int n))) \<and>
           invocations (snd (runWithRetries callback cfg)) = n"
    if "\<forall>i<n. \<exists>e. callback i = Inl e \<and> \<not> fst (stopRetries cfg e)"
    using run_exhausted [OF assms that] assms(1) by (simp add: invocations_backoff)
  have b: "fst (runWithRetries_wrapper callback cfg) = Some (Failure (exhausted (int n))) \<and>
           invocations (snd (runWithRetries_wrapper callback cfg)) = n"
    if "\<forall>i<n. \<exists>e. callback i = Inl e"
    using run_exhausted [OF assms(1) never(1), of callback] that assms(1)
    by (simp add: wrapper_eq invocations_backoff)
  have c: "fst (runWithRetries callback cfg) = Some (Success v) \<and>
           invocations (snd (runWithRetries callback cfg)) = j"
    if "1 \<le> j" "j \<le> n" "callback (j - 1) = Inr v"
       "\<forall>i<j - 1. \<exists>e. callback i = Inl e \<and> \<not> fst (stopRetries cfg e)"
    using run_success [of j cfg callback v] that assms by (simp add: invocations_backoff)
  have d: "fst (runWithRetries_wrapper callback cfg) = Some (Success v) \<and>
           invocations (snd (runWithRetries_wrapper callback cfg)) = j"
    if "1 \<le> j" "j \<le> n" "callback (j - 1) = Inr v" "\<forall>i<j - 1. \<exists>e. callback i = Inl e"
    using run_success [of j ?never callback v] that assms by (simp add: wrapper_eq invocations_backoff)
  have e1: "fst (Task_run L this ctx h) = Return (Some (False, Inl (exhausted (int n)))) \<and>
            invocations (snd (snd (Task_run L this ctx h))) = n"
    if "chainRef (taskObj h this) = Some c" "policy (taskObj h this) = cfg"
       "action (taskObj h this) ctx = callback"
       "\<forall>i<n. \<exists>e. callback i = Inl e \<and> \<not> fst (stopRetries cfg e)"
    using a [OF that(4)] that(1-3)
    by (simp add: Task_run_attached [OF that(1)] finish_def dispatch_attached [OF that(1)] split_beta)
  have e2: "fst (Task_run L this ctx h) = Return (Some (True, Inr v)) \<and>
            invocations (snd (snd (Task_run L this ctx h))) = j"
    if "chainRef (taskObj h this) = Some c" "policy (taskObj h this) = cfg"
       "action (taskObj h this) ctx = callback"
       "1 \<le> j" "j \<le> n" "callback (j - 1) = Inr v"
       "\<forall>i<j - 1. \<exists>e. callback i = Inl e \<and> \<not> fst (stopRetries cfg e)"
    using c [OF that(4-7)] that(1-3)
    by (simp add: Task_run_attached [OF that(1)] finish_def dispatch_attached [OF that(1)] split_beta)
  show ?thesis
    unfolding exhausted_def [symmetric]
    apply (intro conjI)
    subgoal using a by blast
    subgoal using b by blast
    subgoal using c by blast
    subgoal using d by blast
    subgoal
      apply (intro impI conjI)
      subgoal using e1 by blast
      subgoal using e1 by blast
      subgoal using e2 by blast
      subgoal using e2 by blast
      done
    done
qed

theorem retries_exhausted_or_first_success_witness:
  "fst (runWithRetries alwaysFails defaultPolicy) =
     Some (Failure (Error ''Request failed after 3 attempts'')) \<and>
   invocations (snd (runWithRetries alwaysFails defaultPolicy)) = 3 \<and>
   fst (runWithRetries_wrapper alwaysFails defaultPolicy) =
     Some (Failure (Error ''Request failed after 3 attempts'')) \<and>
   invocations (snd (runWithRetries_wrapper alwaysFails defaultPolicy)) = 3 \<and>
   fst (runWithRetries succeedsThird defaultPolicy) = Some (Success (JNum 7)) \<and>
   invocations (snd (runWithRetries succeedsThird defaultPolicy)) = 3 \<and>
   fst (runWithRetries_wrapper succeedsThird defaultPolicy) = Some (Success (JNum 7)) \<and>
   invocations (snd (runWithRetries_wrapper succeedsThird defaultPolicy)) = 3 \<and>
   fst (Task_run quiet 3 emptyContext heap4) =
     Return (Some (False, Inl (Error ''Request failed after 3 attempts''))) \<and>
   invocations (snd (snd (Task_run quiet 3 emptyContext heap4))) = 3 \<and>
   fst (Task_run quiet 4 emptyContext heap4) = Return (Some (True, Inr (JNum 7))) \<and>
   invocations (snd (snd (Task_run quiet 4 emptyContext heap4))) = 3"
proof -
  have n: "(1::nat) \<le> 3" "maxRetries defaultPolicy = int 3"
    by (simp_all add: defaultPolicy_def)
  have ts: "toString 3 = ''3''"
    by code_simp
  have stop: "stopRetries defaultPolicy (RequestError 500 ''Server Error'') =
      (False, RequestError 500 ''Server Error'')"
    by (simp add: defaultPolicy_def)
  have t3: "chainRef (taskObj heap4 3) = Some 1" "policy (taskObj heap4 3) = defaultPolicy"
      "action (taskObj heap4 3) emptyContext = alwaysFails"
    by (simp_all add: heap4_def heap0_def addTask_def validateTask_def not_js_def attach_def
        set_chain_def mkTask_def policy_def configPolicy_def noConfig_def defaultPolicy_def)
  have t4: "chainRef (taskObj heap4 4) = Some 1" "policy (taskObj heap4 4) = defaultPolicy"
      "action (taskObj heap4 4) emptyContext = succeedsThird"
    by (simp_all add: heap4_def heap0_def addTask_def validateTask_def not_js_def attach_def
        set_chain_def mkTask_def policy_def configPolicy_def noConfig_def defaultPolicy_def)
  show ?thesis
    using retries_exhausted_or_first_success
            [OF n, of alwaysFails 3 "JNum 7" heap4 3 1 emptyContext quiet]
          retries_exhausted_or_first_success
            [OF n, of succeedsThird 3 "JNum 7" heap4 4 1 emptyContext quiet]
    by (simp add: ts stop t3 t4 alwaysFails_def succeedsThird_def)
qed

text \<open>
  C6, as stated, fails for large \<open>i\<close>: the delay is the double
  \<^verbatim>\<open>interval * 2 ** (i - 1)\<close>, which is \<^verbatim>\<open>Infinity\<close> once the product reaches \<open>2 ^ 1024\<close>.
  With 1026 attempts of an operation that always fails and the interval 2000, the delay
  after attempt 1025 is \<^verbatim>\<open>Infinity\<close>.
\<close>

theorem backoff_delay_overflows:
  "maxRetries longPolicy = 1026 \<and> interval longPolicy = 2000 \<and>
   snd (runWithRetries alwaysFails longPolicy) ! (2 * 1025 - 1) = Sleep PosInfinity \<and>
   snd (runWithRetries alwaysFails longPolicy) ! (2 * 2 - 1) = Sleep (Finite (2000 * 2 ^ (2 - 1)))"
proof -
  have p: "maxRetries longPolicy = int 1026" "interval longPolicy = 2000"
    by (simp_all add: longPolicy_def defaultPolicy_def)
  have f: "\<forall>i<1026. \<exists>e. alwaysFails i = Inl e \<and> \<not> fst (stopRetries longPolicy e)"
    by (simp add: alwaysFails_def longPolicy_def defaultPolicy_def)
  have tr: "snd (runWithRetries alwaysFails longPolicy) = backoff 2000 1 1026 @ [Invoke]"
    using run_exhausted [OF _ p(1) f] p(2) by simp
  have big: "backoffDelay 2000 1025 = PosInfinity"
    by code_simp
  have small: "backoffDelay 2000 2 = Finite (2000 * 2 ^ (2 - 1))"
    by code_simp
  have "(backoff 2000 1 1026 @ [Invoke]) ! (2 * (1025 - 1) + 1) = Sleep (backoffDelay 2000 1025)"
    by (rule backoff_nth) simp_all
  moreover have "(backoff 2000 1 1026 @ [Invoke]) ! (2 * (2 - 1) + 1) = Sleep (backoffDelay 2000 2)"
    by (rule backoff_nth) simp_all
  ultimately show ?thesis
    using p tr big small by simp
qed

text \<open>
  C6, amended.  In every retry execution whose first \<open>j\<close> attempts fail and are retried
  (\<open>j < maxRetries\<close>, no stop signal), the trace is: attempt 1 with nothing before it, then
  for each attempt \<open>i\<close> that is retried the delay \<^verbatim>\<open>interval * 2 ** (i - 1)\<close> and attempt
  \<open>i + 1\<close>, for more than \<open>j\<close> attempts in all; with \<open>maxRetries = 1\<close> there is one attempt
  and no delay.  The delay equals \<open>interval * 2 ^ (i - 1)\<close> as long as \<open>i \<le> 1024\<close> and that
  product is below \<open>2 ^ 1024\<close> in magnitude, and is \<^verbatim>\<open>Infinity\<close> when the interval is
  positive and the product is \<open>2 ^ 1024\<close> or more.  This holds of both engines and of
  \<^verbatim>\<open>Task.run\<close>.
\<close>

theorem backoff_delays:
  "((\<forall>i<j. \<exists>e. callback i = Inl e \<and> \<not> fst (stopRetries cfg e)) \<and> int j < maxRetries cfg \<longrightarrow>
      (\<exists>m. j < m \<and> int m \<le> maxRetries cfg \<and>
         snd (runWithRetries callback cfg) =
           concat (map (\<lambda>i. [Invoke, Sleep (backoffDelay (interval cfg) i)]) [1..<m]) @ [Invoke])) \<and>
   ((\<forall>i<j. \<exists>e. callback i = Inl e) \<and> int j < maxRetries cfg \<longrightarrow>
      (\<exists>m. j < m \<and> int m \<le> maxRetries cfg \<and>
         snd (runWithRetries_wrapper callback cfg) =
           concat (map (\<lambda>i. [Invoke, Sleep (backoffDelay (interval cfg) i)]) [1..<m]) @ [Invoke])) \<and>
   ((\<forall>i<j. \<exists>e. action (taskObj h this) ctx i = Inl e \<and>
        \<not> fst (stopRetries (policy (taskObj h this)) e)) \<and>
      int j < maxRetries (policy (taskObj h this)) \<longrightarrow>
      (\<exists>m. j < m \<and> int m \<le> maxRetries (policy (taskObj h this)) \<and>
         snd (snd (Task_run L this ctx h)) =
           concat (map (\<lambda>i. [Invoke, Sleep (backoffDelay (interval (policy (taskObj h this))) i)])
             [1..<m]) @ [Invoke])) \<and>
   (maxRetries cfg = 1 \<longrightarrow>
      snd (runWithRetries callback cfg) = [Invoke] \<and>
      snd (runWithRetries_wrapper callback cfg) = [Invoke]) \<and>
   (maxRetries (policy (taskObj h this)) = 1 \<longrightarrow> snd (snd (Task_run L this ctx h)) = [Invoke]) \<and>
   (k - 1 < 1024 \<and> \<bar>iv * 2 ^ (k - 1)\<bar> < 2 ^ 1024 \<longrightarrow>
      backoffDelay iv k = Finite (iv * 2 ^ (k - 1))) \<and>
   (0 < iv \<and> 2 ^ 1024 \<le> iv * 2 ^ (k - 1) \<longrightarrow> backoffDelay iv k = PosInfinity)"
proof -
  let ?never = "cfg\<lparr>stopRetries := \<lambda>e. (False, e)\<rparr>"
  let ?p = "policy (taskObj h this)"
  have a: "\<exists>m. j < m \<and> int m \<le> maxRetries cfg \<and>
              snd (runWithRetries callback cfg) = backoff (interval cfg) 1 m @ [Invoke]"
    if "\<forall>i<j. \<exists>e. callback i = Inl e \<and> \<not> fst (stopRetries cfg e)" "int j < maxRetries cfg" for j
    using that by (rule run_trace_after)
  have b: "\<exists>m. j < m \<and> int m \<le> maxRetries cfg \<and>
              snd (runWithRetries_wrapper callback cfg) = backoff (interval cfg) 1 m @ [Invoke]"
    if "\<forall>i<j. \<exists>e. callback i = Inl e" "int j < maxRetries cfg" for j
    using run_trace_after [of j callback ?never] that by (simp add: wrapper_eq)
  have c: "\<exists>m. j < m \<and> int m \<le> maxRetries ?p \<and>
              snd (snd (Task_run L this ctx h)) = backoff (interval ?p) 1 m @ [Invoke]"
    if "\<forall>i<j. \<exists>e. action (taskObj h this) ctx i = Inl e \<and> \<not> fst (stopRetries ?p e)"
       "int j < maxRetries ?p" for j
    using that by (rule Task_trace_after)
  have a1: "snd (runWithRetries callback cfg) = [Invoke]" if "maxRetries cfg = 1"
  proof -
    from a [of 0] that obtain m where "0 < m" "int m \<le> 1"
      "snd (runWithRetries callback cfg) = backoff (interval cfg) 1 m @ [Invoke]"
      by auto
    moreover from this have "m = 1" by simp
    ultimately show ?thesis by simp
  qed
  have b1: "snd (runWithRetries_wrapper callback cfg) = [Invoke]" if "maxRetries cfg = 1"
  proof -
    from b [of 0] that obtain m where "0 < m" "int m \<le> 1"
      "snd (runWithRetries_wrapper callback cfg) = backoff (interval cfg) 1 m @ [Invoke]"
      by auto
    moreover from this have "m = 1" by simp
    ultimately show ?thesis by simp
  qed
  have c1: "snd (snd (Task_run L this ctx h)) = [Invoke]" if "maxRetries ?p = 1"
  proof -
    from c [of 0] that obtain m where "0 < m" "int m \<le> 1"
      "snd (snd (Task_run L this ctx h)) = backoff (interval ?p) 1 m @ [Invoke]"
      by auto
    moreover from this have "m = 1" by simp
    ultimately show ?thesis by simp
  qed
  show ?thesis
    unfolding backoff_def [symmetric]
    apply (intro conjI impI)
    subgoal using a by blast
    subgoal using b by blast
    subgoal using c by blast
    subgoal using a1 by blast
    subgoal using b1 by blast
    subgoal using c1 by blast
    subgoal using backoffDelay_exact by blast
    subgoal using backoffDelay_overflow by blast
    done
qed

theorem backoff_delays_witness:
  "alwaysFails 0 = Inl (RequestError 500 ''Server Error'') \<and>
   alwaysFails 1 = Inl (RequestError 500 ''Server Error'') \<and>
   \<not> fst (stopRetries defaultPolicy (RequestError 500 ''Server Error'')) \<and>
   int 2 < maxRetries defaultPolicy \<and>
   snd (runWithRetries alwaysFails defaultPolicy) =
     [Invoke, Sleep (Finite 2000), Invoke, Sleep (Finite 4000), Invoke] \<and>
   snd (runWithRetries_wrapper alwaysFails defaultPolicy) =
     [Invoke, Sleep (Finite 2000), Invoke, Sleep (Finite 4000), Invoke] \<and>
   action (taskObj heap0 3) emptyContext 0 = Inl (RequestError 500 ''Server Error'') \<and>
   action (taskObj heap0 3) emptyContext 1 = Inl (RequestError 500 ''Server Error'') \<and>
   \<not> fst (stopRetries (policy (taskObj heap0 3)) (RequestError 500 ''Server Error'')) \<and>
   int 2 < maxRetries (policy (taskObj heap0 3)) \<and>
   snd (snd (Task_run quiet 3 emptyContext heap0)) =
     [Invoke, Sleep (Finite 2000), Invoke, Sleep (Finite 4000), Invoke] \<and>
   maxRetries oncePolicy = 1 \<and>
   snd (runWithRetries alwaysFails oncePolicy) = [Invoke] \<and>
   snd (runWithRetries_wrapper alwaysFails oncePolicy) = [Invoke] \<and>
   maxRetries (policy (taskObj heap0 5)) = 1 \<and>
   snd (snd (Task_run quiet 5 emptyContext heap0)) = [Invoke] \<and>
   backoffDelay 2000 2 = Finite (2000 * 2 ^ (2 - 1)) \<and>
   backoffDelay 2000 1025 = PosInfinity"
proof -
  have d: "\<forall>i<2. \<exists>e. alwaysFails i = Inl e \<and> \<not> fst (stopRetries defaultPolicy e)"
    "\<forall>i<2. \<exists>e. alwaysFails i = Inl e"
    "int 2 < maxRetries defaultPolicy" "maxRetries oncePolicy = 1" "interval defaultPolicy = 2000"
    by (simp_all add: alwaysFails_def defaultPolicy_def oncePolicy_def)
  have t: "\<forall>i<2. \<exists>e. action (taskObj heap0 3) emptyContext i = Inl e \<and>
      \<not> fst (stopRetries (policy (taskObj heap0 3)) e)"
    "int 2 < maxRetries (policy (taskObj heap0 3))" "maxRetries (policy (taskObj heap0 5)) = 1"
    "interval (policy (taskObj heap0 3)) = 2000"
    by (simp_all add: heap0_def mkTask_def policy_def configPolicy_def noConfig_def onceConfig_def
        alwaysFails_def)
  have big: "(0::int) < 2000 \<and> (2::int) ^ 1024 \<le> 2000 * 2 ^ (1025 - 1)"
    by simp
  have small: "(2::nat) - 1 < 1024 \<and> \<bar>(2000::int) * 2 ^ (2 - 1)\<bar> < 2 ^ 1024"
    by simp
  note A = backoff_delays [of 2 alwaysFails defaultPolicy heap0 3 emptyContext quiet 2 2000]
  note B = backoff_delays [of 2 alwaysFails oncePolicy heap0 5 emptyContext quiet 1025 2000]
  have three: "concat (map (\<lambda>i. [Invoke, Sleep (backoffDelay 2000 i)]) [1..<m]) @ [Invoke] =
      [Invoke, Sleep (Finite 2000), Invoke, Sleep (Finite 4000), Invoke]"
    if "2 < m" "int m \<le> 3" for m :: nat
  proof -
    have c3: "concat (map (\<lambda>i. [Invoke, Sleep (backoffDelay 2000 i)]) [1..<3]) @ [Invoke] =
        [Invoke, Sleep (Finite 2000), Invoke, Sleep (Finite 4000), Invoke]"
      by code_simp
    from that have "m = 3" by simp
    then show ?thesis using c3 by (simp only:)
  qed
  have r1: "snd (runWithRetries alwaysFails defaultPolicy) =
      [Invoke, Sleep (Finite 2000), Invoke, Sleep (Finite 4000), Invoke]"
  proof -
    from A [THEN conjunct1] d(1,3) obtain m where "2 < m" "int m \<le> maxRetries defaultPolicy"
      "snd (runWithRetries alwaysFails defaultPolicy) =
         concat (map (\<lambda>i. [Invoke, Sleep (backoffDelay (interval defaultPolicy) i)]) [1..<m]) @ [Invoke]"
      by auto
    then show ?thesis using three [of m] by (simp add: defaultPolicy_def)
  qed
  have r2: "snd (runWithRetries_wrapper alwaysFails defaultPolicy) =
      [Invoke, Sleep (Finite 2000), Invoke, Sleep (Finite 4000), Invoke]"
  proof -
    from A [THEN conjunct2, THEN conjunct1] d(2,3) obtain m where "2 < m" "int m \<le> maxRetries defaultPolicy"
      "snd (runWithRetries_wrapper alwaysFails defaultPolicy) =
         concat (map (\<lambda>i. [Invoke, Sleep (backoffDelay (interval defaultPolicy) i)]) [1..<m]) @ [Invoke]"
      by auto
    then show ?thesis using three [of m] by (simp add: defaultPolicy_def)
  qed
  have r3: "snd (snd (Task_run quiet 3 emptyContext heap0)) =
      [Invoke, Sleep (Finite 2000), Invoke, Sleep (Finite 4000), Invoke]"
  proof -
    have mx: "maxRetries (policy (taskObj heap0 3)) = 3"
      by (simp add: heap0_def mkTask_def policy_def configPolicy_def noConfig_def)
    from A [THEN conjunct2, THEN conjunct2, THEN conjunct1] t(1,2) obtain m where
      "2 < m" "int m \<le> maxRetries (policy (taskObj heap0 3))"
      "snd (snd (Task_run quiet 3 emptyContext heap0)) =
         concat (map (\<lambda>i. [Invoke, Sleep (backoffDelay (interval (policy (taskObj heap0 3))) i)])
           [1..<m]) @ [Invoke]"
      by auto
    then show ?thesis using three [of m] by (simp add: t(4) mx)
  qed
  have e2: "backoffDelay 2000 2 = Finite (2000 * 2 ^ (2 - 1))"
    by (rule mp [OF A [THEN conjunct2, THEN conjunct2, THEN conjunct2, THEN conjunct2,
          THEN conjunct2, THEN conjunct1] small])
  have c: "alwaysFails 0 = Inl (RequestError 500 ''Server Error'')"
    "alwaysFails 1 = Inl (RequestError 500 ''Server Error'')"
    "\<not> fst (stopRetries defaultPolicy (RequestError 500 ''Server Error''))"
    "action (taskObj heap0 3) emptyContext 0 = Inl (RequestError 500 ''Server Error'')"
    "action (taskObj heap0 3) emptyContext 1 = Inl (RequestError 500 ''Server Error'')"
    "\<not> fst (stopRetries (policy (taskObj heap0 3)) (RequestError 500 ''Server Error''))"
    by (simp_all add: heap0_def mkTask_def policy_def configPolicy_def noConfig_def
        alwaysFails_def defaultPolicy_def)
  show ?thesis
    using r1 r2 r3 e2 B d(3,4,5) t(2,3,4) big c by simp
qed

section \<open>Claims on Task\<close>

text \<open>
  C3.  For a Task attached to a chain \<open>c\<close> (its back-reference is \<open>c\<close>), with policy
  \<open>cfg\<close> and an action whose invocations in this run have the outcomes \<open>callback\<close>:
  when the stop predicate fires at attempt \<open>k\<close>, and when all \<open>n = retries\<close> attempts
  fail, \<^verbatim>\<open>run\<close> returns \<^verbatim>\<open>[false, error]\<close>, and the heap it leaves is the one in which
  \<^verbatim>\<open>c.breakChain()\<close> has set the abort flag of \<open>c\<close>, unless a listener has turned the
  abort decision of this failure signal to false, in which case the heap is unchanged.
  When an attempt succeeds, \<^verbatim>\<open>run\<close> returns \<^verbatim>\<open>[true, result]\<close> and leaves the heap
  unchanged, unless a listener has turned the decision of this success signal to true.
  The decision is the default unless a listener passes a different value to
  \<^verbatim>\<open>detail.breakChain\<close> (lemma \<open>decision_default\<close>).  With \<open>retries \<ge> 1\<close>, \<^verbatim>\<open>run\<close>
  always returns one of the two pairs, and each pair comes with the heap just described.
\<close>

theorem terminal_failure_aborts_owning_chain:
  assumes "chainRef (taskObj h this) = Some c"
    and "policy (taskObj h this) = cfg"
    and "action (taskObj h this) ctx = callback"
  shows
    "(1 \<le> k \<and> int k \<le> maxRetries cfg \<and>
        (\<forall>i<k - 1. \<exists>e. callback i = Inl e \<and> \<not> fst (stopRetries cfg e)) \<and>
        callback (k - 1) = Inl e \<and> stopRetries cfg e = (True, err) \<longrightarrow>
        fst (Task_run L this ctx h) = Return (Some (False, Inl err)) \<and>
        (decision L this ''taskError'' (ErrorCtx err) True \<longrightarrow>
           fst (snd (Task_run L this ctx h)) = breakChain c True h \<and>
           stopChain (chainObj (fst (snd (Task_run L this ctx h))) c) = Some True) \<and>
        (\<not> decision L this ''taskError'' (ErrorCtx err) True \<longrightarrow>
           fst (snd (Task_run L this ctx h)) = h)) \<and>
     (1 \<le> n \<and> maxRetries cfg = int n \<and>
        (\<forall>i<n. \<exists>e. callback i = Inl e \<and> \<not> fst (stopRetries cfg e)) \<longrightarrow>
        fst (Task_run L this ctx h) = Return (Some (False, Inl (exhausted (int n)))) \<and>
        (decision L this ''taskError'' (ErrorCtx (exhausted (int n))) True \<longrightarrow>
           fst (snd (Task_run L this ctx h)) = breakChain c True h \<and>
           stopChain (chainObj (fst (snd (Task_run L this ctx h))) c) = Some True) \<and>
        (\<not> decision L this ''taskError'' (ErrorCtx (exhausted (int n))) True \<longrightarrow>
           fst (snd (Task_run L this ctx h)) = h)) \<and>
     (1 \<le> j \<and> int j \<le> maxRetries cfg \<and>
        (\<forall>i<j - 1. \<exists>e. callback i = Inl e \<and> \<not> fst (stopRetries cfg e)) \<and>
        callback (j - 1) = Inr v \<longrightarrow>
        fst (Task_run L this ctx h) = Return (Some (True, Inr v)) \<and>
        (\<not> decision L this ''taskSuccess'' (ResultCtx v) False \<longrightarrow>
           fst (snd (Task_run L this ctx h)) = h) \<and>
        (decision L this ''taskSuccess'' (ResultCtx v) False \<longrightarrow>
           fst (snd (Task_run L this ctx h)) = breakChain c True h)) \<and>
     (1 \<le> maxRetries cfg \<longrightarrow>
        (\<exists>ok r. fst (Task_run L this ctx h) = Return (Some (ok, r)))) \<and>
     (fst (Task_run L this ctx h) = Return (Some (False, r)) \<longrightarrow>
        (\<exists>err. r = Inl err \<and>
           (decision L this ''taskError'' (ErrorCtx err) True \<longrightarrow>
              stopChain (chainObj (fst (snd (Task_run L this ctx h))) c) = Some True))) \<and>
     (fst (Task_run L this ctx h) = Return (Some (True, r)) \<longrightarrow>
        (\<exists>v. r = Inr v \<and>
           (\<not> decision L this ''taskSuccess'' (ResultCtx v) False \<longrightarrow>
              fst (snd (Task_run L this ctx h)) = h)))"
proof -
  let ?x = "runWithRetries callback cfg"
  have run: "Task_run L this ctx h =
     (case fst ?x of
        None \<Rightarrow> (Return None, h, snd ?x)
      | Some (Success v) \<Rightarrow>
          (Return (Some (True, Inr v)),
           if decision L this ''taskSuccess'' (ResultCtx v) False then breakChain c True h else h,
           snd ?x)
      | Some (Failure e) \<Rightarrow>
          (Return (Some (False, Inl e)),
           if decision L this ''taskError'' (ErrorCtx e) True then breakChain c True h else h,
           snd ?x))"
    by (rule Task_run_attached_cases [OF assms(1), of L ctx, unfolded assms(2,3)])
  have stop: "fst ?x = Some (Failure err)"
    if "1 \<le> k" "int k \<le> maxRetries cfg"
       "\<forall>i<k - 1. \<exists>e. callback i = Inl e \<and> \<not> fst (stopRetries cfg e)"
       "callback (k - 1) = Inl e" "stopRetries cfg e = (True, err)"
    using run_stop [OF that] by simp
  have out: "fst ?x = Some (Failure (exhausted (int n)))"
    if "1 \<le> n" "maxRetries cfg = int n"
       "\<forall>i<n. \<exists>e. callback i = Inl e \<and> \<not> fst (stopRetries cfg e)"
    using run_exhausted [OF that] by simp
  have succ: "fst ?x = Some (Success v)"
    if "1 \<le> j" "int j \<le> maxRetries cfg"
       "\<forall>i<j - 1. \<exists>e. callback i = Inl e \<and> \<not> fst (stopRetries cfg e)"
       "callback (j - 1) = Inr v"
    using run_success [OF that] by simp
  have some: "\<exists>r. fst ?x = Some r" if "1 \<le> maxRetries cfg"
    using loop_result_some [of 1 cfg callback 0] that by (simp add: runWithRetries_def)
  have fail_heap: "fst (Task_run L this ctx h) = Return (Some (False, Inl e')) \<and>
      (decision L this ''taskError'' (ErrorCtx e') True \<longrightarrow>
         fst (snd (Task_run L this ctx h)) = breakChain c True h \<and>
         stopChain (chainObj (fst (snd (Task_run L this ctx h))) c) = Some True) \<and>
      (\<not> decision L this ''taskError'' (ErrorCtx e') True \<longrightarrow> fst (snd (Task_run L this ctx h)) = h)"
    if "fst ?x = Some (Failure e')" for e'
    using that by (simp add: run)
  have succ_heap: "fst (Task_run L this ctx h) = Return (Some (True, Inr v')) \<and>
      (\<not> decision L this ''taskSuccess'' (ResultCtx v') False \<longrightarrow> fst (snd (Task_run L this ctx h)) = h) \<and>
      (decision L this ''taskSuccess'' (ResultCtx v') False \<longrightarrow>
         fst (snd (Task_run L this ctx h)) = breakChain c True h)"
    if "fst ?x = Some (Success v')" for v'
    using that by (simp add: run)
  have old: "(1 \<le> maxRetries cfg \<longrightarrow>
        (\<exists>ok r. fst (Task_run L this ctx h) = Return (Some (ok, r)))) \<and>
     (fst (Task_run L this ctx h) = Return (Some (False, r)) \<longrightarrow>
        (\<exists>err. r = Inl err \<and>
           (decision L this ''taskError'' (ErrorCtx err) True \<longrightarrow>
              stopChain (chainObj (fst (snd (Task_run L this ctx h))) c) = Some True))) \<and>
     (fst (Task_run L this ctx h) = Return (Some (True, r)) \<longrightarrow>
        (\<exists>v. r = Inr v \<and>
           (\<not> decision L this ''taskSuccess'' (ResultCtx v) False \<longrightarrow>
              fst (snd (Task_run L this ctx h)) = h)))"
  proof (cases "fst ?x")
    case None
    with run some show ?thesis by auto
  next
    case (Some res)
    with run show ?thesis by (cases res) auto
  qed
  show ?thesis
    apply (intro conjI)
    subgoal using stop fail_heap by blast
    subgoal using out fail_heap by blast
    subgoal using succ succ_heap by blast
    subgoal using old by blast
    subgoal using old by blast
    subgoal using old by blast
    done
qed

theorem terminal_failure_aborts_owning_chain_witness:
  "chainRef (taskObj heap3 1) = Some 0 \<and> policy (taskObj heap3 1) = defaultPolicy \<and>
   action (taskObj heap3 1) emptyContext = alwaysNotFound \<and>
   alwaysNotFound 0 = Inl (RequestError 404 ''Not Found'') \<and>
   stopRetries defaultPolicy (RequestError 404 ''Not Found'') =
     (True, RequestError 404 ''Not Found'') \<and>
   decision quiet 1 ''taskError'' (ErrorCtx (RequestError 404 ''Not Found'')) True \<and>
   fst (Task_run quiet 1 emptyContext heap3) =
     Return (Some (False, Inl (RequestError 404 ''Not Found''))) \<and>
   stopChain (chainObj heap3 0) = None \<and>
   stopChain (chainObj (fst (snd (Task_run quiet 1 emptyContext heap3))) 0) = Some True \<and>
   \<not> decision overrideFalse 1 ''taskError'' (ErrorCtx (RequestError 404 ''Not Found'')) True \<and>
   fst (Task_run overrideFalse 1 emptyContext heap3) =
     Return (Some (False, Inl (RequestError 404 ''Not Found''))) \<and>
   fst (snd (Task_run overrideFalse 1 emptyContext heap3)) = heap3 \<and>
   chainRef (taskObj heap4 3) = Some 1 \<and> policy (taskObj heap4 3) = defaultPolicy \<and>
   action (taskObj heap4 3) emptyContext = alwaysFails \<and>
   decision quiet 3 ''taskError'' (ErrorCtx (Error ''Request failed after 3 attempts'')) True \<and>
   fst (Task_run quiet 3 emptyContext heap4) =
     Return (Some (False, Inl (Error ''Request failed after 3 attempts''))) \<and>
   stopChain (chainObj (fst (snd (Task_run quiet 3 emptyContext heap4))) 1) = Some True \<and>
   chainRef (taskObj heap4 4) = Some 1 \<and> policy (taskObj heap4 4) = defaultPolicy \<and>
   action (taskObj heap4 4) emptyContext = succeedsThird \<and>
   \<not> decision quiet 4 ''taskSuccess'' (ResultCtx (JNum 7)) False \<and>
   fst (Task_run quiet 4 emptyContext heap4) = Return (Some (True, Inr (JNum 7))) \<and>
   fst (snd (Task_run quiet 4 emptyContext heap4)) = heap4"
proof -
  have t1: "chainRef (taskObj heap3 1) = Some 0" "policy (taskObj heap3 1) = defaultPolicy"
      "action (taskObj heap3 1) emptyContext = alwaysNotFound"
    by (simp_all add: heap3_def heap2_def heap1_def heap0_def addTask_def validateTask_def
        not_js_def attach_def set_chain_def mkTask_def policy_def configPolicy_def noConfig_def
        defaultPolicy_def)
  have t3: "chainRef (taskObj heap4 3) = Some 1" "policy (taskObj heap4 3) = defaultPolicy"
      "action (taskObj heap4 3) emptyContext = alwaysFails"
    and t4: "chainRef (taskObj heap4 4) = Some 1" "policy (taskObj heap4 4) = defaultPolicy"
      "action (taskObj heap4 4) emptyContext = succeedsThird"
    by (simp_all add: heap4_def heap0_def addTask_def validateTask_def not_js_def attach_def
        set_chain_def mkTask_def policy_def configPolicy_def noConfig_def defaultPolicy_def)
  have f0: "stopChain (chainObj heap3 0) = None"
    by code_simp
  have ex: "exhausted 3 = Error ''Request failed after 3 attempts''"
    by code_simp
  have d: "decision quiet 1 ''taskError'' (ErrorCtx (RequestError 404 ''Not Found'')) True"
    "\<not> decision overrideFalse 1 ''taskError'' (ErrorCtx (RequestError 404 ''Not Found'')) True"
    "decision quiet 3 ''taskError'' (ErrorCtx (Error ''Request failed after 3 attempts'')) True"
    "\<not> decision quiet 4 ''taskSuccess'' (ResultCtx (JNum 7)) False"
    by (simp_all add: decision_def quiet_def overrideFalse_def detail_breakChain_def)
  have p: "maxRetries defaultPolicy = 3"
    "stopRetries defaultPolicy (RequestError 404 ''Not Found'') = (True, RequestError 404 ''Not Found'')"
    "stopRetries defaultPolicy (RequestError 500 ''Server Error'') = (False, RequestError 500 ''Server Error'')"
    by (simp_all add: defaultPolicy_def)
  note A = terminal_failure_aborts_owning_chain [OF t1, of 1 "RequestError 404 ''Not Found''"
      "RequestError 404 ''Not Found''" quiet 3 3 "JNum 7" "Inl (RequestError 404 ''Not Found'')",
      THEN conjunct1]
  note B = terminal_failure_aborts_owning_chain [OF t1, of 1 "RequestError 404 ''Not Found''"
      "RequestError 404 ''Not Found''" overrideFalse 3 3 "JNum 7" "Inl (RequestError 404 ''Not Found'')",
      THEN conjunct1]
  note C = terminal_failure_aborts_owning_chain [OF t3, of 1 "RequestError 404 ''Not Found''"
      "RequestError 404 ''Not Found''" quiet 3 3 "JNum 7" "Inl (RequestError 404 ''Not Found'')",
      THEN conjunct2, THEN conjunct1]
  note D = terminal_failure_aborts_owning_chain [OF t4, of 1 "RequestError 404 ''Not Found''"
      "RequestError 404 ''Not Found''" quiet 3 3 "JNum 7" "Inl (RequestError 404 ''Not Found'')",
      THEN conjunct2, THEN conjunct2, THEN conjunct1]
  show ?thesis
    using A B C D t1 t3 t4 f0 d p
    by (simp add: ex alwaysNotFound_def alwaysFails_def succeedsThird_def)
qed

text \<open>
  C10, as stated, fails: a Task whose back-reference is \<^verbatim>\<open>null\<close> returns
  \<^verbatim>\<open>[false, error]\<close> on terminal failure when a listener has called
  \<^verbatim>\<open>detail.breakChain(false)\<close>, because the call of \<^verbatim>\<open>this.#chain.breakChain()\<close> is guarded
  by \<^verbatim>\<open>if (stopChain)\<close>.  Task 1 of \<open>heap0\<close> is detached and fails with status 404.
  Likewise a success does not return normally when a listener has called
  \<^verbatim>\<open>detail.breakChain(true)\<close>: the TypeError of the success signal is caught as a failed
  attempt, the action of Task 0 is run three times, and \<^verbatim>\<open>run\<close> throws.
\<close>

theorem detached_failure_returns_when_overridden:
  "chainRef (taskObj heap0 1) = None \<and>
   fst (Task_run overrideFalse 1 emptyContext heap0) =
     Return (Some (False, Inl (RequestError 404 ''Not Found''))) \<and>
   chainRef (taskObj heap0 0) = None \<and>
   fst (Task_run overrideTrue 0 emptyContext heap0) = Throw TypeError \<and>
   invocations (snd (snd (Task_run overrideTrue 0 emptyContext heap0))) = 3"
  by code_simp

text \<open>
  C10, amended.  For a Task whose back-reference is \<^verbatim>\<open>null\<close>, and listeners that do not
  turn the decision of a success signal to true: when the retry loop ends in the failure
  \<open>e\<close>, \<^verbatim>\<open>run\<close> throws a TypeError if the abort decision of the failure signal is still
  true after the listeners ran (always so without listeners), and returns
  \<^verbatim>\<open>[false, e]\<close> if a listener has turned it to false; when the loop ends in the success
  \<open>v\<close>, \<^verbatim>\<open>run\<close> returns \<^verbatim>\<open>[true, v]\<close>.
\<close>

theorem detached_failure_throws_unless_overridden:
  assumes "chainRef (taskObj h this) = None"
    and "\<forall>v. \<not> decision L this ''taskSuccess'' (ResultCtx v) False"
  shows
    "(fst (runWithRetries (action (taskObj h this) ctx) (policy (taskObj h this))) = Some (Failure e) \<longrightarrow>
        fst (Task_run L this ctx h) =
          (if decision L this ''taskError'' (ErrorCtx e) True then Throw TypeError
           else Return (Some (False, Inl e)))) \<and>
     (fst (runWithRetries (action (taskObj h this) ctx) (policy (taskObj h this))) = Some (Success v) \<longrightarrow>
        fst (Task_run L this ctx h) = Return (Some (True, Inr v)))"
  using Task_run_detached_cases [OF assms, of ctx] by simp

theorem detached_failure_throws_unless_overridden_witness:
  "chainRef (taskObj heap0 1) = None \<and>
   (\<forall>v. \<not> decision quiet 1 ''taskSuccess'' (ResultCtx v) False) \<and>
   fst (runWithRetries (action (taskObj heap0 1) emptyContext) (policy (taskObj heap0 1))) =
     Some (Failure (RequestError 404 ''Not Found'')) \<and>
   decision quiet 1 ''taskError'' (ErrorCtx (RequestError 404 ''Not Found'')) True \<and>
   fst (Task_run quiet 1 emptyContext heap0) = Throw TypeError \<and>
   chainRef (taskObj heap0 0) = None \<and>
   (\<forall>v. \<not> decision quiet 0 ''taskSuccess'' (ResultCtx v) False) \<and>
   fst (runWithRetries (action (taskObj heap0 0) emptyContext) (policy (taskObj heap0 0))) =
     Some (Success (JNum 1)) \<and>
   fst (Task_run quiet 0 emptyContext heap0) = Return (Some (True, Inr (JNum 1)))"
proof -
  have n: "chainRef (taskObj heap0 1) = None" "chainRef (taskObj heap0 0) = None"
    by (simp_all add: heap0_def mkTask_def)
  have q: "\<forall>v. \<not> decision quiet 1 ''taskSuccess'' (ResultCtx v) False"
    "\<forall>v. \<not> decision quiet 0 ''taskSuccess'' (ResultCtx v) False"
    "decision quiet 1 ''taskError'' (ErrorCtx (RequestError 404 ''Not Found'')) True"
    by (simp_all add: decision_def quiet_def)
  have e1: "fst (runWithRetries (action (taskObj heap0 1) emptyContext) (policy (taskObj heap0 1))) =
      Some (Failure (RequestError 404 ''Not Found''))"
    by code_simp
  have e0: "fst (runWithRetries (action (taskObj heap0 0) emptyContext) (policy (taskObj heap0 0))) =
      Some (Success (JNum 1))"
    by code_simp
  show ?thesis
    using detached_failure_throws_unless_overridden
            [OF n(1) q(1), of emptyContext "RequestError 404 ''Not Found''" "JNum 1"]
          detached_failure_throws_unless_overridden
            [OF n(2) q(2), of emptyContext "RequestError 404 ''Not Found''" "JNum 1"]
          n q e1 e0
    by simp
qed

section \<open>Claims on TaskChain\<close>

text \<open>
  C1, as stated, fails: \<^verbatim>\<open>addTask\<close> accepts a Task whose label a member already has.
  Chain 0 of \<open>heap2\<close> holds Tasks 0 and 1, labelled \<open>x\<close> and \<open>y\<close>; Task 2 is labelled
  \<open>x\<close> too, and is appended.
\<close>

theorem addTask_accepts_duplicate_label:
  "labels heap2 0 = [''x'', ''y''] \<and>
   label (taskObj heap2 2) = ''x'' \<and>
   fst (addTask 0 (TaskRef 2) heap2) = Return () \<and>
   chain (chainObj (snd (addTask 0 (TaskRef 2) heap2)) 0) = [TaskRef 0, TaskRef 1, TaskRef 2] \<and>
   labels (snd (addTask 0 (TaskRef 2) heap2)) 0 = [''x'', ''y'', ''x'']"
  by code_simp

text \<open>
  C1, amended.  No chain operation looks at the label of the Task it is given.
  \<^verbatim>\<open>addTask\<close> always appends the Task; \<^verbatim>\<open>insertBeforeTask\<close> and \<^verbatim>\<open>insertAfterTask\<close>,
  given a well-formed reference label that is found at index \<open>idx\<close>, always insert it
  at \<open>idx\<close> and at \<open>idx + 1\<close>.  The labels of the chain are unique after the call
  exactly when they were unique before it and the new label was not among them.
\<close>

theorem insertion_never_checks_labels:
  "fst (addTask this (TaskRef r) h) = Return () \<and>
   labels (snd (addTask this (TaskRef r) h)) this = labels h this @ [label (taskObj h r)] \<and>
   (distinct (labels (snd (addTask this (TaskRef r) h)) this) \<longleftrightarrow>
      distinct (labels h this) \<and> label (taskObj h r) \<notin> set (labels h this)) \<and>
   (validateLabel l = None \<and> findByLabel h this l = Inr idx \<longrightarrow>
      fst (insertBeforeTask this (TaskRef r) l h) = Return () \<and>
      labels (snd (insertBeforeTask this (TaskRef r) l h)) this =
        take idx (labels h this) @ label (taskObj h r) # drop idx (labels h this) \<and>
      (distinct (labels (snd (insertBeforeTask this (TaskRef r) l h)) this) \<longleftrightarrow>
         distinct (labels h this) \<and> label (taskObj h r) \<notin> set (labels h this)) \<and>
      fst (insertAfterTask this (TaskRef r) l h) = Return () \<and>
      labels (snd (insertAfterTask this (TaskRef r) l h)) this =
        take (idx + 1) (labels h this) @ label (taskObj h r) # drop (idx + 1) (labels h this) \<and>
      (distinct (labels (snd (insertAfterTask this (TaskRef r) l h)) this) \<longleftrightarrow>
         distinct (labels h this) \<and> label (taskObj h r) \<notin> set (labels h this)))"
  by (simp add: addTask_TaskRef insertBeforeTask_TaskRef insertAfterTask_TaskRef
      distinct_splice_insert distinct_snoc del: distinct_append)


theorem insertion_never_checks_labels_witness:
  "validateLabel ''y'' = None \<and> findByLabel heap2 0 ''y'' = Inr 1 \<and>
   fst (addTask 0 (TaskRef 2) heap2) = Return () \<and>
   labels (snd (addTask 0 (TaskRef 2) heap2)) 0 = [''x'', ''y'', ''x''] \<and>
   \<not> distinct (labels (snd (addTask 0 (TaskRef 2) heap2)) 0) \<and>
   fst (insertBeforeTask 0 (TaskRef 2) ''y'' heap2) = Return () \<and>
   labels (snd (insertBeforeTask 0 (TaskRef 2) ''y'' heap2)) 0 = [''x'', ''x'', ''y''] \<and>
   fst (insertAfterTask 0 (TaskRef 3) ''y'' heap2) = Return () \<and>
   labels (snd (insertAfterTask 0 (TaskRef 3) ''y'' heap2)) 0 = [''x'', ''y'', ''z''] \<and>
   distinct (labels (snd (insertAfterTask 0 (TaskRef 3) ''y'' heap2)) 0)"
proof -
  have l: "labels heap2 0 = [''x'', ''y'']"
    and t: "label (taskObj heap2 2) = ''x''" "label (taskObj heap2 3) = ''z''"
    and v: "validateLabel ''y'' = None" "findByLabel heap2 0 ''y'' = Inr 1"
    by code_simp+
  show ?thesis
    using insertion_never_checks_labels [of 0 2 heap2 "''y''" 1]
          insertion_never_checks_labels [of 0 3 heap2 "''y''" 1]
    by (simp add: l t v)
qed

text \<open>
  C9.  \<^verbatim>\<open>#validateTask\<close> never throws, so a value that is not a Task passes it.
  \<^verbatim>\<open>addTask(42)\<close> on an empty chain pushes 42 onto the array and then fails with the
  TypeError of \<^verbatim>\<open>task.setChain\<close>, not with the error of \<^verbatim>\<open>#validateTask\<close>; the chain
  holds 42 afterwards.  \<^verbatim>\<open>insertBeforeTask(42, "y")\<close> and \<^verbatim>\<open>insertAfterTask(42, "y")\<close>
  do the same; \<^verbatim>\<open>removeTask(42)\<close> fails, with the TypeError of \<^verbatim>\<open>task.getName\<close>.
\<close>

theorem addTask_stores_non_task:
  "validateTask (JNum 42) = None \<and>
   chain (chainObj heap0 0) = [] \<and>
   fst (addTask 0 (JNum 42) heap0) = Throw TypeError \<and>
   chain (chainObj (snd (addTask 0 (JNum 42) heap0)) 0) = [JNum 42] \<and>
   chain (chainObj heap2 0) = [TaskRef 0, TaskRef 1] \<and>
   fst (insertBeforeTask 0 (JNum 42) ''y'' heap2) = Throw TypeError \<and>
   chain (chainObj (snd (insertBeforeTask 0 (JNum 42) ''y'' heap2)) 0) =
     [TaskRef 0, JNum 42, TaskRef 1] \<and>
   fst (insertAfterTask 0 (JNum 42) ''y'' heap2) = Throw TypeError \<and>
   chain (chainObj (snd (insertAfterTask 0 (JNum 42) ''y'' heap2)) 0) =
     [TaskRef 0, TaskRef 1, JNum 42] \<and>
   fst (removeTask 0 (JNum 42) heap2) = Throw TypeError \<and>
   chain (chainObj (snd (removeTask 0 (JNum 42) heap2)) 0) = [TaskRef 0, TaskRef 1]"
  by code_simp




section \<open>Claims on the request builder\<close>

text \<open>
  C7.  Each configuration call that returns (\<^verbatim>\<open>withRetries\<close> and \<^verbatim>\<open>withInterval\<close> on a
  number, \<^verbatim>\<open>withRetryBreaker\<close> on a function, \<^verbatim>\<open>withProperty\<close> on anything, and the three
  calls of the builder of \<^verbatim>\<open>src/octokit-wrapper.js\<close> on anything) returns a builder other
  than the original, which differs from it in the one property set; the descriptor and
  the policy of the original, and every object allocated before the call, are unchanged.
  So a builder is a template: after \<^verbatim>\<open>b.withRetries(v)\<close> and \<^verbatim>\<open>b.withInterval(w)\<close> the first
  result has only the new retry count, the second only the new interval, and \<open>b\<close> has
  neither.
\<close>

theorem configuration_returns_new_builder:
  assumes "wf_builder \<sigma> b"
  shows
    "(typeof v = ''number'' \<longrightarrow>
        derived (withRetries b v \<sigma>) \<sigma> b (descriptor \<sigma> b) ((retryPolicy \<sigma> b)(''maxRetries'' \<mapsto> v))) \<and>
     (typeof v = ''number'' \<longrightarrow>
        derived (withInterval b v \<sigma>) \<sigma> b (descriptor \<sigma> b) ((retryPolicy \<sigma> b)(''interval'' \<mapsto> v))) \<and>
     (typeof v = ''function'' \<longrightarrow>
        derived (withRetryBreaker b v \<sigma>) \<sigma> b (descriptor \<sigma> b) ((retryPolicy \<sigma> b)(''stopRetries'' \<mapsto> v))) \<and>
     derived (withProperty b v \<sigma>) \<sigma> b ((descriptor \<sigma> b)(''propertyName'' \<mapsto> v)) (retryPolicy \<sigma> b) \<and>
     derived (withRetries_wrapper b v \<sigma>) \<sigma> b (descriptor \<sigma> b) ((retryPolicy \<sigma> b)(''maxRetries'' \<mapsto> v)) \<and>
     derived (withInterval_wrapper b v \<sigma>) \<sigma> b (descriptor \<sigma> b) ((retryPolicy \<sigma> b)(''interval'' \<mapsto> v)) \<and>
     derived (withProperty_wrapper b v \<sigma>) \<sigma> b ((descriptor \<sigma> b)(''propertyName'' \<mapsto> v)) (retryPolicy \<sigma> b) \<and>
     (typeof v = ''number'' \<and> typeof w = ''number'' \<longrightarrow>
        (\<exists>b1 b2.
           fst (withRetries b v \<sigma>) = Return b1 \<and>
           fst (withInterval b w (snd (withRetries b v \<sigma>))) = Return b2 \<and>
           retryPolicy (snd (withInterval b w (snd (withRetries b v \<sigma>)))) b1 =
             (retryPolicy \<sigma> b)(''maxRetries'' \<mapsto> v) \<and>
           retryPolicy (snd (withInterval b w (snd (withRetries b v \<sigma>)))) b2 =
             (retryPolicy \<sigma> b)(''interval'' \<mapsto> w) \<and>
           retryPolicy (snd (withInterval b w (snd (withRetries b v \<sigma>)))) b = retryPolicy \<sigma> b \<and>
           descriptor (snd (withInterval b w (snd (withRetries b v \<sigma>)))) b = descriptor \<sigma> b))"
  apply (intro conjI impI)
  subgoal by (rule derived_policy [OF assms]) (simp add: withRetries_def)
  subgoal by (rule derived_policy [OF assms]) (simp add: withInterval_def)
  subgoal by (rule derived_policy [OF assms]) (simp add: withRetryBreaker_def)
  subgoal by (rule derived_state [OF assms]) (simp add: withProperty_def)
  subgoal by (rule derived_policy [OF assms]) (simp add: withRetries_wrapper_def)
  subgoal by (rule derived_policy [OF assms]) (simp add: withInterval_wrapper_def)
  subgoal by (rule derived_state [OF assms]) (simp add: withProperty_wrapper_def)
  subgoal by (rule template_reuse [OF assms]) simp_all
  done

theorem configuration_returns_new_builder_witness:
  "wf_builder exampleStore exampleBuilder \<and>
   typeof (JNum 5) = ''number'' \<and> typeof (JNum 100) = ''number'' \<and>
   derived (withRetries exampleBuilder (JNum 5) exampleStore) exampleStore exampleBuilder
     (descriptor exampleStore exampleBuilder)
     ((retryPolicy exampleStore exampleBuilder)(''maxRetries'' \<mapsto> JNum 5)) \<and>
   derived (withProperty exampleBuilder (JNum 5) exampleStore) exampleStore exampleBuilder
     ((descriptor exampleStore exampleBuilder)(''propertyName'' \<mapsto> JNum 5))
     (retryPolicy exampleStore exampleBuilder) \<and>
   (\<exists>b1 b2.
      fst (withRetries exampleBuilder (JNum 5) exampleStore) = Return b1 \<and>
      fst (withInterval exampleBuilder (JNum 100) (snd (withRetries exampleBuilder (JNum 5) exampleStore))) =
        Return b2 \<and>
      retryPolicy (snd (withInterval exampleBuilder (JNum 100)
          (snd (withRetries exampleBuilder (JNum 5) exampleStore)))) b1 =
        (retryPolicy exampleStore exampleBuilder)(''maxRetries'' \<mapsto> JNum 5) \<and>
      retryPolicy (snd (withInterval exampleBuilder (JNum 100)
          (snd (withRetries exampleBuilder (JNum 5) exampleStore)))) b2 =
        (retryPolicy exampleStore exampleBuilder)(''interval'' \<mapsto> JNum 100) \<and>
      retryPolicy (snd (withInterval exampleBuilder (JNum 100)
          (snd (withRetries exampleBuilder (JNum 5) exampleStore)))) exampleBuilder =
        retryPolicy exampleStore exampleBuilder \<and>
      descriptor (snd (withInterval exampleBuilder (JNum 100)
          (snd (withRetries exampleBuilder (JNum 5) exampleStore)))) exampleBuilder =
        descriptor exampleStore exampleBuilder)"
proof -
  have wf: "wf_builder exampleStore exampleBuilder"
    by code_simp
  show ?thesis
    using configuration_returns_new_builder [OF wf, of "JNum 5" "JNum 100"] wf
    by simp
qed

text \<open>
  C8, as stated, fails on the builder of \<^verbatim>\<open>src/octokit-wrapper.js\<close>, which checks no
  argument: \<^verbatim>\<open>withRetries("three")\<close> returns a builder whose policy has the string as its
  retry count.
\<close>

theorem unchecked_builder_accepts_malformed_count:
  "typeof (JStr ''three'') \<noteq> ''number'' \<and>
   fst (withRetries_wrapper wrapperBuilder (JStr ''three'') wrapperStore) =
     Return \<lparr>stateRef = 1, retryConfigVal = JObject 2\<rparr> \<and>
   retryPolicy (snd (withRetries_wrapper wrapperBuilder (JStr ''three'') wrapperStore))
     \<lparr>stateRef = 1, retryConfigVal = JObject 2\<rparr> ''maxRetries'' = Some (JStr ''three'')"
  by code_simp

text \<open>
  C8, amended.  In the builder of \<^verbatim>\<open>src/unnamed/part_000\<close>, \<^verbatim>\<open>withRetries\<close> and
  \<^verbatim>\<open>withInterval\<close> on a value that is not a number, and \<^verbatim>\<open>withRetryBreaker\<close> on a value
  that is not a function, throw at the call and leave the store as it was; no builder is
  returned, so nothing can be run.  In the builder of \<^verbatim>\<open>src/octokit-wrapper.js\<close>,
  \<^verbatim>\<open>withRetries\<close> and \<^verbatim>\<open>withInterval\<close> return a builder for every value.
\<close>

theorem checked_calls_reject_malformed_configuration:
  "(typeof v \<noteq> ''number'' \<longrightarrow>
      withRetries b v \<sigma> = (Throw (Error ''maxRetries must be a number!''), \<sigma>)) \<and>
   (typeof v \<noteq> ''number'' \<longrightarrow>
      withInterval b v \<sigma> = (Throw (Error ''interval must be a number!''), \<sigma>)) \<and>
   (typeof v \<noteq> ''function'' \<longrightarrow>
      withRetryBreaker b v \<sigma> = (Throw (Error ''callback must be a function!''), \<sigma>)) \<and>
   (\<exists>b'. fst (withRetries_wrapper b v \<sigma>) = Return b') \<and>
   (\<exists>b'. fst (withInterval_wrapper b v \<sigma>) = Return b')"
  by (simp add: withRetries_def withInterval_def withRetryBreaker_def
      withRetries_wrapper_def withInterval_wrapper_def alloc_def)

theorem checked_calls_reject_malformed_configuration_witness:
  "typeof (JStr ''three'') \<noteq> ''number'' \<and> typeof (JStr ''three'') \<noteq> ''function'' \<and>
   withRetries exampleBuilder (JStr ''three'') exampleStore =
     (Throw (Error ''maxRetries must be a number!''), exampleStore) \<and>
   withInterval exampleBuilder (JStr ''three'') exampleStore =
     (Throw (Error ''interval must be a number!''), exampleStore) \<and>
   withRetryBreaker exampleBuilder (JStr ''three'') exampleStore =
     (Throw (Error ''callback must be a function!''), exampleStore) \<and>
   (\<exists>b'. fst (withRetries_wrapper wrapperBuilder (JStr ''three'') wrapperStore) = Return b') \<and>
   (\<exists>b'. fst (withInterval_wrapper wrapperBuilder (JStr ''three'') wrapperStore) = Return b')"
  using checked_calls_reject_malformed_configuration [of "JStr ''three''" exampleBuilder exampleStore]
        checked_calls_reject_malformed_configuration [of "JStr ''three''" wrapperBuilder wrapperStore]
  by simp
end
